theory Spec2Isabelle
  imports Main "HOL-Library.Char_ord" "HOL-Library.List_Lexorder"
begin

section \<open>JavaScript values and objects\<close>

text \<open>
  The renderer is JavaScript: a team is a plain object whose properties are read and
  written by name, and \<open>_.extend\<close> / \<open>_.pick\<close> copy whatever properties
  are present. The model keeps that shape. Strings are lists of 8-bit characters, a
  number held by a property is an integer. A webview context, an observable and any other object (icons, theme data)
  are references that are only compared and passed on. The badge object of a team is kept
  by value: no two teams ever share one. A function object is known by its name only.
\<close>

record badge_info =
  unread :: "int option"
  unreadHighlights :: "int option"
  connectionStatus :: "int option"

datatype jsval =
    JUndefined
  | JNull
  | JBool bool
  | JNum int
  | JStr string
  | JObj nat
  | JWebView nat
  | JObservable nat
  | JBadge badge_info
  | JFunction string

datatype js_error = TypeError

type_synonym jsobj = "string \<rightharpoonup> jsval"

text \<open>Reading a property: an absent key reads as \<open>undefined\<close>.\<close>

definition get_prop :: "jsobj \<Rightarrow> string \<Rightarrow> jsval" where
  "get_prop obj k = (case obj k of None \<Rightarrow> JUndefined | Some v \<Rightarrow> v)"

text \<open>JavaScript truthiness, as used by \<open>if (x)\<close>, \<open>!x\<close>, \<open>&&\<close> and \<open>||\<close>.\<close>

fun truthy :: "jsval \<Rightarrow> bool" where
  "truthy JUndefined = False"
| "truthy JNull = False"
| "truthy (JBool b) = b"
| "truthy (JNum n) = (n \<noteq> 0)"
| "truthy (JStr s) = (s \<noteq> [])"
| "truthy (JObj r) = True"
| "truthy (JWebView r) = True"
| "truthy (JObservable r) = True"
| "truthy (JBadge b) = True"
| "truthy (JFunction f) = True"

text \<open>
  \<open>ToString\<close>, used where a value becomes a property key
  (\<open>themeInfo[team.team_id]\<close>) and by the default comparison of
  \<open>Array.prototype.sort\<close>.
\<close>

definition digit_char :: "nat \<Rightarrow> char" where
  "digit_char d = ''0123456789'' ! d"

function nat_to_string :: "nat \<Rightarrow> string" where
  "nat_to_string n =
     (if n < 10 then [digit_char n]
      else nat_to_string (n div 10) @ [digit_char (n mod 10)])"
  by pat_completeness auto
termination
  by (relation "measure id") auto

declare nat_to_string.simps [simp del]

fun js_to_string :: "jsval \<Rightarrow> string" where
  "js_to_string JUndefined = ''undefined''"
| "js_to_string JNull = ''null''"
| "js_to_string (JBool b) = (if b then ''true'' else ''false'')"
| "js_to_string (JNum n) =
     (if n < 0 then CHR ''-'' # nat_to_string (nat (- n)) else nat_to_string (nat n))"
| "js_to_string (JStr s) = s"
| "js_to_string (JObj r) = ''[object Object]''"
| "js_to_string (JWebView r) = ''[object Object]''"
| "js_to_string (JObservable r) = ''[object Object]''"
| "js_to_string (JBadge b) = ''[object Object]''"
| "js_to_string (JFunction f) = ''function '' @ f @ ''() { [code] }''"

text \<open>
  \<open>Array.prototype.sort()\<close> without a comparison function: \<open>undefined\<close> goes
  last, everything else is ordered by its string. The model is an insertion sort (the
  order among elements with the same string is the order of insertion).
\<close>

definition js_sort_le :: "jsval \<Rightarrow> jsval \<Rightarrow> bool" where
  "js_sort_le x y =
     (if y = JUndefined then True
      else if x = JUndefined then False
      else js_to_string x \<le> js_to_string y)"

fun js_insert :: "jsval \<Rightarrow> jsval list \<Rightarrow> jsval list" where
  "js_insert x [] = [x]"
| "js_insert x (y # ys) = (if js_sort_le x y then x # y # ys else y # js_insert x ys)"

definition js_sort :: "jsval list \<Rightarrow> jsval list" where
  "js_sort xs = foldr js_insert xs []"

text \<open>\<open>_.extend(obj, src)\<close> and \<open>_.pick(obj, keys...)\<close> on property maps.\<close>

definition lodash_extend :: "jsobj \<Rightarrow> jsobj \<Rightarrow> jsobj" where
  "lodash_extend obj src = obj ++ src"

definition lodash_pick :: "jsobj \<Rightarrow> string list \<Rightarrow> jsobj" where
  "lodash_pick obj keys = obj |` set keys"

section \<open>getInitialsOfName\<close>

text \<open>\<open>String.prototype.split(' ')\<close>: the pieces between single spaces, empty pieces kept.\<close>

fun split_space :: "string \<Rightarrow> string list" where
  "split_space [] = [[]]"
| "split_space (c # cs) =
     (if c = CHR '' '' then [] # split_space cs
      else (case split_space cs of
              [] \<Rightarrow> [[c]]
            | w # ws \<Rightarrow> (c # w) # ws))"

text \<open>The inverse of \<open>split(' ')\<close>: \<open>Array.prototype.join(' ')\<close>.\<close>

fun join_space :: "string list \<Rightarrow> string" where
  "join_space [] = []"
| "join_space [w] = w"
| "join_space (w # v # ws) = w @ CHR '' '' # join_space (v # ws)"

text \<open>
  The loop \<open>for (var word of words)\<close> of \<open>getInitialsOfName\<close>, with the
  accumulator \<open>initials\<close>; \<open>substring(0, 1)\<close> is \<open>take 1\<close>.
\<close>

fun collect_initials :: "string list \<Rightarrow> string \<Rightarrow> string" where
  "collect_initials [] initials = initials"
| "collect_initials (word # words) initials =
     (if length word < 1 then collect_initials words initials
      else collect_initials words (initials @ take 1 word))"

text \<open>
  \<open>getInitialsOfName(name, maxLength=2)\<close>. The second argument is \<open>None\<close> when
  the caller leaves it out. A truthy name that is not a string has no \<open>split\<close>
  method: the call throws.
\<close>

definition getInitialsOfName :: "jsval \<Rightarrow> nat option \<Rightarrow> js_error + string" where
  "getInitialsOfName name maxLength =
     (if \<not> truthy name then Inr []
      else (case name of
              JStr s \<Rightarrow>
                (let initials = [];
                     words = split_space s
                 in Inr (take (case maxLength of None \<Rightarrow> 2 | Some m \<Rightarrow> m)
                           (collect_initials words initials)))
            | _ \<Rightarrow> Inl TypeError))"

section \<open>Numbers\<close>

text \<open>
  A JavaScript number is an IEEE double. The model has the doubles that hold an integer,
  \<open>NaN\<close> and the two infinities. The sum of two finite doubles is the exact sum
  rounded to 53 significant bits, ties to the even significand, and an infinity when the
  rounded magnitude reaches \<open>2^1024\<close>. \<open>bit_length\<close> is the number of binary
  digits of a positive integer, \<open>round_to_double\<close> rounds a magnitude. An integer stands for a number of the program only if it
  is such a double, as every integer up to \<open>2^53\<close> in magnitude is.
\<close>

datatype jsnumber = Finite int | NaN | PosInfinity | NegInfinity

function bit_length :: "int \<Rightarrow> nat" where
  "bit_length n = (if n \<le> 0 then 0 else Suc (bit_length (n div 2)))"
  by pat_completeness auto
termination
  by (relation "measure nat") auto

declare bit_length.simps [simp del]

definition round_to_double :: "int \<Rightarrow> int" where
  "round_to_double m =
     (if m \<le> 2 ^ 53 then m
      else
        (let ulp = 2 ^ (bit_length m - 53);
             q = m div ulp;
             r = m mod ulp
         in if 2 * r < ulp \<or> (2 * r = ulp \<and> even q) then q * ulp else (q + 1) * ulp))"

definition to_double :: "int \<Rightarrow> jsnumber" where
  "to_double n =
     (let m = round_to_double \<bar>n\<bar>
      in if 2 ^ 1024 \<le> m then (if n < 0 then NegInfinity else PosInfinity)
         else Finite (if n < 0 then - m else m))"

text \<open>The operator \<open>+\<close> on two numbers.\<close>

fun js_plus :: "jsnumber \<Rightarrow> jsnumber \<Rightarrow> jsnumber" where
  "js_plus (Finite x) (Finite y) = to_double (x + y)"
| "js_plus NaN b = NaN"
| "js_plus a NaN = NaN"
| "js_plus PosInfinity NegInfinity = NaN"
| "js_plus NegInfinity PosInfinity = NaN"
| "js_plus PosInfinity b = PosInfinity"
| "js_plus a PosInfinity = PosInfinity"
| "js_plus NegInfinity b = NegInfinity"
| "js_plus a NegInfinity = NegInfinity"

text \<open>
  \<open>ToNumber\<close> of a property that holds an integer or is missing: \<open>undefined\<close>
  becomes \<open>NaN\<close>.
\<close>

definition js_to_number :: "int option \<Rightarrow> jsnumber" where
  "js_to_number v = (case v of None \<Rightarrow> NaN | Some n \<Rightarrow> Finite n)"

section \<open>The state of the TeamsViewController\<close>

text \<open>
  Everything the controller does to a collaborator (loading screen, browser process,
  webview contexts, team selector, badge manager, login dialog, local storage) is
  recorded, in order, as an effect. Log lines are left out.
\<close>

datatype effect =
    LoadingScreen_showTrying
  | LoadingScreen_hideAll
  | LoadingScreen_showOffline
  | LoadingScreen_showSlackDown
  | SendToBrowser string "jsval list"
  | WebView_created nat jsval
  | WebView_attachToDom nat
  | WebView_show nat
  | WebView_hide nat
  | WebView_refreshTeams nat
  | WebView_dispose nat
  | Subscribe_windowFocus nat
  | Subscribe_crashed nat jsval
  | Subscribe_requestedClose nat
  | Subscribe_webViewLoaded nat
  | Unsubscribe_windowFocus nat
  | Unsubscribe_crashed nat
  | TeamSelector_setSelectionStatus nat bool
  | TeamSelector_updateTeamList "nat list" "nat option"
  | BadgeManager_setGlobalBadgeCount jsnumber jsnumber string
  | LoginDialog_setCancelable bool
  | LoginDialog_show
  | LocalStorage_setItem_teamList "jsobj list"
  | Fs_writeFileSync_devmenu
  | Reporter_sendEvent string string
  | UpdateTeamThemes "nat list"
  | UpdateTeamMenu "nat list"
  | LoadDisposable_dispose
  | Dialog_showMessageBox string
  | Shell_openItem_logs

text \<open>
  \<open>NetworkStatus\<close>: \<open>ns_isOnline\<close> is what the injected \<open>isOnline()\<close>
  (by default \<open>navigator.onLine\<close>) answers now, \<open>ns_reason\<close> is the field
  \<open>@_reason\<close> (\<open>None\<close> while no check has failed), \<open>ns_currentStatus\<close>
  the field \<open>@_currentStatus\<close>.
\<close>

record network_status =
  ns_isOnline :: bool
  ns_reason :: "string option"
  ns_currentStatus :: "bool option"

text \<open>
  The controller. Team objects live in \<open>heap\<close>, by address; \<open>teamList\<close> and
  \<open>primaryTeam\<close> hold addresses, so the same object can be reached from the list,
  from an incoming update and from the primary-team handle, as in the source.
  \<open>primaryTeamDisp\<close> is the content of the \<open>SerialDisposable\<close>: the team and
  the webview whose focus and crash subscriptions it holds. \<open>themeInfo\<close> is
  \<open>themeCache.data.themeInfo\<close>, \<open>webViewCount\<close> the counter \<open>webViewId\<close>
  of the webview module.
\<close>

record tvc =
  heap :: "nat \<Rightarrow> jsobj"
  teamList :: "nat list"
  primaryTeam :: "nat option"
  primaryTeamDisp :: "(nat \<times> nat) option"
  haveMergedTeamListOnce :: bool
  savedTsDevMenu :: bool
  hasReporter :: bool
  themeInfo :: "string \<rightharpoonup> jsobj"
  networkStatus :: network_status
  webViewCount :: nat
  effects :: "effect list"

definition emit :: "effect \<Rightarrow> tvc \<Rightarrow> tvc" where
  "emit e st = st\<lparr>effects := effects st @ [e]\<rparr>"

text \<open>Reading a property of the team object at an address.\<close>

definition field :: "tvc \<Rightarrow> nat \<Rightarrow> string \<Rightarrow> jsval" where
  "field st a k = get_prop (heap st a) k"

text \<open>The \<open>team_id\<close>s of a list of team objects: \<open>_.map(list, (x) => x.team_id)\<close>.\<close>

definition team_ids :: "(nat \<Rightarrow> jsobj) \<Rightarrow> nat list \<Rightarrow> jsval list" where
  "team_ids h as = map (\<lambda>a. get_prop (h a) ''team_id'') as"

text \<open>
  A method call \<open>v.method()\<close> on what should be a \<open>SlackWebViewContext\<close>: any
  other value has no such method and the call throws.
\<close>

definition call_webview :: "jsval \<Rightarrow> (nat \<Rightarrow> effect) \<Rightarrow> tvc \<Rightarrow> (js_error + unit) \<times> tvc" where
  "call_webview v method st =
     (case v of
        JWebView w \<Rightarrow> (Inr (), emit (method w) st)
      | _ \<Rightarrow> (Inl TypeError, st))"

section \<open>ThemeCache.fetchThemeInfoAndIconsForTeam\<close>

text \<open>
  \<open>themeData = @data.themeInfo[team.team_id]; return themeData ? {}\<close>: the cached
  object for the team, or an empty object.
\<close>

definition fetchThemeInfoAndIconsForTeam :: "(string \<rightharpoonup> jsobj) \<Rightarrow> jsobj \<Rightarrow> jsobj" where
  "fetchThemeInfoAndIconsForTeam cache team =
     (case cache (js_to_string (get_prop team ''team_id'')) of
        None \<Rightarrow> Map.empty
      | Some themeData \<Rightarrow> themeData)"

section \<open>mergeTeamList and shouldMergeTeamList\<close>

text \<open>
  Step 2 of \<open>mergeTeamList\<close>: the loop over \<open>updatedTeamList\<close> that appends the
  teams not yet in \<open>this.teamList\<close>. The state of the loop is the heap, the team
  list and \<open>newTeams\<close> (here \<open>added\<close>).
\<close>

fun addNewTeams ::
  "(string \<rightharpoonup> jsobj) \<Rightarrow> nat list \<Rightarrow> (nat \<Rightarrow> jsobj) \<times> nat list \<times> nat list
     \<Rightarrow> (nat \<Rightarrow> jsobj) \<times> nat list \<times> nat list" where
  "addNewTeams cache [] (h, teams, added) = (h, teams, added)"
| "addNewTeams cache (team # rest) (h, teams, added) =
     (if List.find (\<lambda>x. get_prop (h x) ''team_id'' = get_prop (h team) ''team_id'') teams \<noteq> None
      then addNewTeams cache rest (h, teams, added)
      else
        (let h' = h(team := lodash_extend (h team) (fetchThemeInfoAndIconsForTeam cache (h team)))
         in addNewTeams cache rest (h', teams @ [team], added @ [team])))"

text \<open>
  Step 3: the loop over the indices of \<open>this.teamList\<close>. Entry \<open>i\<close> is replaced by
  the incoming object with the same \<open>team_id\<close>, extended with the four preserved
  properties of the old entry and then with the cached theme data, or it is marked
  \<open>shouldDelete\<close>. The loop never changes the length of the list, so it is written over
  the entries still to visit and returns the entries as they stand after the visit.
\<close>

fun updateExistingTeams ::
  "(string \<rightharpoonup> jsobj) \<Rightarrow> nat list \<Rightarrow> nat list \<Rightarrow> (nat \<Rightarrow> jsobj)
     \<Rightarrow> nat list \<times> (nat \<Rightarrow> jsobj)" where
  "updateExistingTeams cache updatedTeamList [] h = ([], h)"
| "updateExistingTeams cache updatedTeamList (item # rest) h =
     (case List.find (\<lambda>x. get_prop (h x) ''team_id'' = get_prop (h item) ''team_id'')
             updatedTeamList of
        Some newTeam \<Rightarrow>
          (let h1 = h(newTeam := lodash_extend (h newTeam)
                      (lodash_pick (h item) [''webView'', ''webViewLoaded'', ''icons'', ''initials'']));
               h2 = h1(newTeam := lodash_extend (h1 newTeam)
                      (fetchThemeInfoAndIconsForTeam cache (h1 newTeam)));
               (rest', h3) = updateExistingTeams cache updatedTeamList rest h2
           in (newTeam # rest', h3))
      | None \<Rightarrow>
          (let h1 = h(item := (h item)(''shouldDelete'' \<mapsto> JBool True));
               (rest', h2) = updateExistingTeams cache updatedTeamList rest h1
           in (item # rest', h2)))"

text \<open>
  Step 4: the loop that drops the entries marked \<open>shouldDelete\<close>, collecting their
  webviews in \<open>toDispose\<close>.
\<close>

fun removeDeleted :: "(nat \<Rightarrow> jsobj) \<Rightarrow> nat list \<Rightarrow> nat list \<times> jsval list" where
  "removeDeleted h [] = ([], [])"
| "removeDeleted h (team # rest) =
     (let (newList, toDispose) = removeDeleted h rest
      in if truthy (get_prop (h team) ''shouldDelete'')
         then (newList,
               if truthy (get_prop (h team) ''webView'')
               then get_prop (h team) ''webView'' # toDispose else toDispose)
         else (team # newList, toDispose))"

record merge_result =
  newTeams :: "nat list"
  toDispose :: "jsval list"

text \<open>
  Step 1 of \<open>mergeTeamList\<close>: when the registry holds a team called
  \<open>__signin__\<close> and the update is not empty, the registry becomes the first incoming
  team alone, extended with the four preserved properties of the signin team. The result
  is the heap and the team list after the step.
\<close>

definition fixupSigninTeam :: "nat list \<Rightarrow> tvc \<Rightarrow> (nat \<Rightarrow> jsobj) \<times> nat list" where
  "fixupSigninTeam updatedTeamList st =
     (case List.find (\<lambda>x. field st x ''team_id'' = JStr ''__signin__'') (teamList st) of
        Some signinTeam \<Rightarrow>
          if length updatedTeamList > 0
          then ((heap st)(updatedTeamList ! 0 := lodash_extend (heap st (updatedTeamList ! 0))
                  (lodash_pick (heap st signinTeam)
                     [''webView'', ''webViewLoaded'', ''icons'', ''initials''])),
                [updatedTeamList ! 0])
          else (heap st, teamList st)
      | None \<Rightarrow> (heap st, teamList st))"

text \<open>
  \<open>mergeTeamList(updatedTeamList)\<close>. The argument is \<open>None\<close> for \<open>null\<close> or
  \<open>undefined\<close>, otherwise the incoming array of team objects (their addresses). The
  arrays themselves are values: the model does not cover a caller that passes
  \<open>this.teamList\<close> itself as the update.
\<close>

definition mergeTeamList :: "nat list option \<Rightarrow> tvc \<Rightarrow> (js_error + merge_result) \<times> tvc" where
  "mergeTeamList upd st =
     (case upd of
        None \<Rightarrow> (Inr \<lparr>newTeams = [], toDispose = []\<rparr>, st)
      | Some updatedTeamList \<Rightarrow>
          if length (teamList st) = 0
          then (Inr \<lparr>newTeams = [], toDispose = []\<rparr>, st\<lparr>teamList := updatedTeamList\<rparr>)
          else if length (teamList st) > 0
                  \<and> List.find (\<lambda>x. field st x ''team_id'' = JStr ''__signin__'') updatedTeamList \<noteq> None
          then
            (case call_webview (field st (teamList st ! 0) ''webView'') WebView_refreshTeams st of
               (Inl e, st') \<Rightarrow> (Inl e, st')
             | (Inr u, st') \<Rightarrow> (Inr \<lparr>newTeams = [], toDispose = []\<rparr>, st'))
          else
            (let (h1, tl1) = fixupSigninTeam updatedTeamList st;
                 (h2, tl2, added) = addNewTeams (themeInfo st) updatedTeamList (h1, tl1, []);
                 (tl3, h3) = updateExistingTeams (themeInfo st) updatedTeamList tl2 h2;
                 (newList, disposables) = removeDeleted h3 tl3
             in (Inr \<lparr>newTeams = added, toDispose = disposables\<rparr>,
                 st\<lparr>heap := h3, teamList := newList\<rparr>)))"

text \<open>
  \<open>shouldMergeTeamList(updatedTeamList)\<close>; it returns the answer and the state, since
  the first call on a non-empty list sets \<open>haveMergedTeamListOnce\<close>.
  \<open>_.map(null, ...)\<close> is the empty array. \<open>_.isEqual\<close> on two arrays of
  \<open>team_id\<close>s is equality of the lists.
\<close>

definition shouldMergeTeamList :: "nat list option \<Rightarrow> tvc \<Rightarrow> bool \<times> tvc" where
  "shouldMergeTeamList upd st =
     (if length (teamList st) = 0 then (True, st)
      else if \<not> haveMergedTeamListOnce st
      then (True, st\<lparr>haveMergedTeamListOnce := True\<rparr>)
      else
        (let ourTeams = js_sort (team_ids (heap st) (teamList st));
             theirTeams = js_sort (team_ids (heap st) (case upd of None \<Rightarrow> [] | Some l \<Rightarrow> l))
         in (\<not> (ourTeams = theirTeams), st)))"

section \<open>updateBadgeInfoForTeam\<close>

text \<open>The table \<open>sortableConnectionStatus\<close> and its inverse (\<open>_.invert\<close>).\<close>

definition sortableConnectionStatus :: "(string \<times> int) list" where
  "sortableConnectionStatus = [(''online'', 0), (''connecting'', 1), (''offline'', 2)]"

definition sortableConnectionStatusToName :: "(string \<times> string) list" where
  "sortableConnectionStatusToName =
     map (\<lambda>(name, n). (js_to_string (JNum n), name)) sortableConnectionStatus"

text \<open>
  How the \<open>setConnectionStatus\<close> message stores a status name on the badge:
  \<open>sortableConnectionStatus[args[0]] || 0\<close>.
\<close>

definition storedConnectionStatus :: "string \<Rightarrow> int" where
  "storedConnectionStatus name =
     (case map_of sortableConnectionStatus name of
        None \<Rightarrow> 0
      | Some n \<Rightarrow> if n \<noteq> 0 then n else 0)"

text \<open>
  A property of \<open>team.badgeInfo\<close>: the badge object has it or not; any other truthy
  value has no such property.
\<close>

definition badge_prop :: "jsval \<Rightarrow> (badge_info \<Rightarrow> int option) \<Rightarrow> int option" where
  "badge_prop v f = (case v of JBadge b \<Rightarrow> f b | _ \<Rightarrow> None)"

text \<open>
  The loop \<open>for (var team of this.teamList)\<close> of \<open>updateBadgeInfoForTeam\<close>. The
  accumulator holds the local variables \<open>unread\<close>, \<open>unreadHighlights\<close> and
  \<open>connectionStatus\<close> (here \<open>unreadSum\<close>, \<open>unreadHighlightsSum\<close>,
  \<open>worstStatus\<close>: the plain names are the fields of the badge). With
  \<open>updateAll\<close> the loop reads \<open>this.primaryTeam.team_id\<close>, which throws when no
  team is primary.
\<close>

fun badgeLoop ::
  "bool \<Rightarrow> nat list \<Rightarrow> jsnumber \<times> jsnumber \<times> int \<Rightarrow> tvc
     \<Rightarrow> (js_error + jsnumber \<times> jsnumber \<times> int) \<times> tvc" where
  "badgeLoop updateAll [] acc st = (Inr acc, st)"
| "badgeLoop updateAll (team # rest) (unreadSum, unreadHighlightsSum, worstStatus) st =
     (let badgeInfo = field st team ''badgeInfo'';
          unreadSum' = (if truthy badgeInfo
                     then js_plus unreadSum (js_to_number (badge_prop badgeInfo unread)) else unreadSum);
          unreadHighlightsSum' = (if truthy badgeInfo
                     then js_plus unreadHighlightsSum
                            (js_to_number (badge_prop badgeInfo unreadHighlights))
                     else unreadHighlightsSum);
          thisStatus = (if \<not> truthy badgeInfo then - 1
                        else (case badge_prop badgeInfo connectionStatus of
                                None \<Rightarrow> - 1
                              | Some c \<Rightarrow> if c = 0 then - 1 else c));
          worstStatus' = max worstStatus thisStatus
      in if updateAll
         then (case primaryTeam st of
                 None \<Rightarrow> (Inl TypeError, st)
               | Some p \<Rightarrow>
                   badgeLoop updateAll rest (unreadSum', unreadHighlightsSum', worstStatus')
                     (emit (TeamSelector_setSelectionStatus team
                              (field st team ''team_id'' = field st p ''team_id'')) st))
         else badgeLoop updateAll rest (unreadSum', unreadHighlightsSum', worstStatus') st)"

text \<open>
  \<open>realConnectionStatus = sortableConnectionStatusToName[connectionStatus] || 'online'\<close>.
\<close>

definition realConnectionStatus :: "int \<Rightarrow> string" where
  "realConnectionStatus status =
     (case map_of sortableConnectionStatusToName (js_to_string (JNum status)) of
        None \<Rightarrow> ''online''
      | Some name \<Rightarrow> if name \<noteq> [] then name else ''online'')"

text \<open>
  \<open>updateBadgeInfoForTeam(teamToUpdate, badgeInfo, updateAll=false)\<close>. The team is
  \<open>None\<close> for \<open>null\<close>; \<open>badgeInfo\<close> is any value (the badge sent by the
  page, or \<open>null\<close>).
\<close>

definition updateBadgeInfoForTeam ::
  "nat option \<Rightarrow> jsval \<Rightarrow> bool \<Rightarrow> tvc \<Rightarrow> (js_error + unit) \<times> tvc" where
  "updateBadgeInfoForTeam teamToUpdate badgeInfo updateAll st =
     (case teamToUpdate of
        None \<Rightarrow> (Inr (), st)
      | Some t \<Rightarrow>
          if \<not> truthy (field st t ''team_id'') then (Inr (), st)
          else
            (case List.find (\<lambda>x. field st x ''team_id'' = field st t ''team_id'') (teamList st) of
               None \<Rightarrow> (Inr (), st)
             | Some found \<Rightarrow>
                 (let st1 = (if truthy badgeInfo
                             then st\<lparr>heap := (heap st)(found := (heap st found)(''badgeInfo'' \<mapsto> badgeInfo))\<rparr>
                             else st)
                  in case badgeLoop updateAll (teamList st1) (Finite 0, Finite 0, - 1) st1 of
                       (Inl e, st2) \<Rightarrow> (Inl e, st2)
                     | (Inr (unreadSum, unreadHighlightsSum, worstStatus), st2) \<Rightarrow>
                         (case (if \<not> updateAll
                                then (case primaryTeam st2 of
                                        None \<Rightarrow> Inl TypeError
                                      | Some p \<Rightarrow>
                                          Inr (emit (TeamSelector_setSelectionStatus found
                                                 (field st2 found ''team_id'' = field st2 p ''team_id'')) st2))
                                else Inr st2) of
                            Inl e \<Rightarrow> (Inl e, st2)
                          | Inr st3 \<Rightarrow>
                              (Inr (),
                               emit (BadgeManager_setGlobalBadgeCount unreadHighlightsSum unreadSum
                                       (realConnectionStatus worstStatus)) st3)))))"

section \<open>makeTeamPrimary\<close>

text \<open>
  \<open>primaryTeamDisp.setDisposable(d)\<close>: the \<open>SerialDisposable\<close> takes the new
  content and disposes the old one. The old content of a primary team is the
  \<open>CompositeDisposable\<close> built by \<open>makeTeamPrimary\<close>: hide the team's webview if
  it still has one, drop the \<open>windowFocus\<close> subscription, drop the \<open>crashed\<close>
  subscription.
\<close>

definition setPrimaryTeamDisp :: "(nat \<times> nat) option \<Rightarrow> tvc \<Rightarrow> (js_error + unit) \<times> tvc" where
  "setPrimaryTeamDisp d st =
     (let old = primaryTeamDisp st;
          st1 = st\<lparr>primaryTeamDisp := d\<rparr>
      in case old of
           None \<Rightarrow> (Inr (), st1)
         | Some (team, w) \<Rightarrow>
             (case (if truthy (field st1 team ''webView'')
                    then call_webview (field st1 team ''webView'') WebView_hide st1
                    else (Inr (), st1)) of
                (Inl e, st2) \<Rightarrow> (Inl e, st2)
              | (Inr u, st2) \<Rightarrow>
                  (Inr (), emit (Unsubscribe_crashed w) (emit (Unsubscribe_windowFocus team) st2))))"

text \<open>\<open>webView.webViewId\<close>: the string \<open>webView<n>\<close> of a webview context.\<close>

definition webViewId :: "jsval \<Rightarrow> jsval" where
  "webViewId v = (case v of JWebView w \<Rightarrow> JStr (''webView'' @ nat_to_string w) | _ \<Rightarrow> JUndefined)"

datatype primary_result = ReturnedNull | ReturnedTeam nat | ReturnedDisposable

text \<open>
  \<open>makeTeamPrimary(team)\<close>, with \<open>None\<close> for a falsy argument. Setting
  \<open>global.Bugsnag.user\<close> is left out.
\<close>

definition makeTeamPrimary :: "nat option \<Rightarrow> tvc \<Rightarrow> (js_error + primary_result) \<times> tvc" where
  "makeTeamPrimary team st =
     (case team of
        None \<Rightarrow>
          (case setPrimaryTeamDisp None (st\<lparr>primaryTeam := None\<rparr>) of
             (Inl e, st1) \<Rightarrow> (Inl e, st1)
           | (Inr u, st1) \<Rightarrow>
               (Inr ReturnedNull,
                emit (SendToBrowser ''teams:team-changed'' []) (emit LoadingScreen_showTrying st1)))
      | Some t \<Rightarrow>
          (let st1 = emit LoadingScreen_hideAll st
           in if (case primaryTeam st1 of
                    None \<Rightarrow> False
                  | Some p \<Rightarrow> field st1 t ''team_id'' = field st1 p ''team_id'')
              then (Inr (ReturnedTeam t), st1)
              else
                (let changed = [field st1 t ''team_name'',
                                if truthy (field st1 t ''webView'')
                                then webViewId (field st1 t ''webView'') else JNull];
                     st2 = emit (SendToBrowser ''teams:team-changed'' changed) st1;
                     st3 = emit (Subscribe_windowFocus t) st2
                 in case field st3 t ''webView'' of
                      JWebView w \<Rightarrow>
                        (let st4 = emit (Subscribe_crashed w (field st3 t ''team_url'')) st3;
                             st5 = st4\<lparr>primaryTeam := Some t\<rparr>
                         in case setPrimaryTeamDisp (Some (t, w)) st5 of
                              (Inl e, st6) \<Rightarrow> (Inl e, st6)
                            | (Inr u, st6) \<Rightarrow>
                                (case call_webview (field st6 t ''webView'') WebView_show st6 of
                                   (Inl e, st7) \<Rightarrow> (Inl e, st7)
                                 | (Inr u, st7) \<Rightarrow>
                                     (case updateBadgeInfoForTeam (primaryTeam st7) JNull True st7 of
                                        (Inl e, st8) \<Rightarrow> (Inl e, st8)
                                      | (Inr u, st8) \<Rightarrow>
                                          (Inr ReturnedDisposable, emit LoadDisposable_dispose st8))))
                    | _ \<Rightarrow> (Inl TypeError, st3))))"

section \<open>fetchTeam and serializeTeamList\<close>

text \<open>
  \<open>fetchTeam(teamId, forceCreate=false)\<close>: finds the team and gives it a webview
  context unless it has one. \<open>new SlackWebViewContext(opts)\<close> takes the next
  \<open>webViewId\<close> and starts hidden; \<open>webViewLoaded\<close> is the observable of that
  context. Building the options hash is left out.
\<close>

definition fetchTeam :: "jsval \<Rightarrow> bool \<Rightarrow> tvc \<Rightarrow> (js_error + nat option) \<times> tvc" where
  "fetchTeam teamId forceCreate st =
     (case List.find (\<lambda>x. field st x ''team_id'' = teamId) (teamList st) of
        None \<Rightarrow> (Inr None, st)
      | Some team \<Rightarrow>
          if truthy (field st team ''webView'') \<and> \<not> forceCreate then (Inr (Some team), st)
          else
            (case (if truthy (field st team ''webView'')
                   then call_webview (field st team ''webView'') WebView_dispose st
                   else (Inr (), st)) of
               (Inl e, st1) \<Rightarrow> (Inl e, st1)
             | (Inr u, st1) \<Rightarrow>
                 (case getInitialsOfName (field st1 team ''team_name'') None of
                    Inl e \<Rightarrow> (Inl e, st1)
                  | Inr initials \<Rightarrow>
                      (let w = webViewCount st1;
                           st2 = st1\<lparr>heap := (heap st1)(team := (heap st1 team)
                                    (''initials'' \<mapsto> JStr initials,
                                     ''webView'' \<mapsto> JWebView w,
                                     ''webViewLoaded'' \<mapsto> JObservable w)),
                                  webViewCount := w + 1\<rparr>;
                           st3 = emit (WebView_hide w) (emit (WebView_created w (field st1 team ''team_url'')) st2);
                           st4 = emit (Subscribe_requestedClose w) (emit (WebView_attachToDom w) st3)
                       in (Inr (Some team), st4)))))"

text \<open>
  \<open>serializeTeamList()\<close>: writes the teams, without their live properties, to local
  storage; the first time team \<open>T024BE7LD\<close> is in the list it also writes the
  \<open>.devmenu\<close> file.
\<close>

definition prepareTeamForSerialization :: "jsobj \<Rightarrow> jsobj" where
  "prepareTeamForSerialization team =
     team |` (- set [''webView'', ''webViewLoaded'', ''badgeInfo'', ''icons'', ''initials''])"

definition serializeTeamList :: "tvc \<Rightarrow> tvc" where
  "serializeTeamList st =
     (let toSave = map (\<lambda>team. prepareTeamForSerialization (heap st team)) (teamList st);
          st1 = emit (LocalStorage_setItem_teamList toSave) st
      in if List.find (\<lambda>team. field st1 team ''team_id'' = JStr ''T024BE7LD'') (teamList st1) \<noteq> None
            \<and> \<not> savedTsDevMenu st1
         then (emit Fs_writeFileSync_devmenu st1)\<lparr>savedTsDevMenu := True\<rparr>
         else st1)"

section \<open>presentAvailableTeams\<close>

text \<open>
  The first half of \<open>presentAvailableTeams(updatedTeamList)\<close>, up to and including
  the call of \<open>mergeTeamList\<close>: the reconciliation of the incoming list with the
  registry. It either returns from \<open>presentAvailableTeams\<close> at once (the incoming list
  was signin noise) or hands \<open>loggedOffTheLastUser\<close>, \<open>newTeams\<close>,
  \<open>toDispose\<close> and \<open>didMergeTeamList\<close> to the second half.
\<close>

datatype reconciled =
    Returned
  | Reconciled bool "nat list" "jsval list" bool

definition loggedOffTheLastUser :: "nat list option \<Rightarrow> tvc \<Rightarrow> bool" where
  "loggedOffTheLastUser upd st =
     (case upd of
        None \<Rightarrow> False
      | Some updatedTeamList \<Rightarrow>
          length updatedTeamList = 1
          \<and> field st (updatedTeamList ! 0) ''reason'' = JStr ''didSignOut''
          \<and> field st (updatedTeamList ! 0) ''id'' = JStr ''__signin__''
          \<and> length (teamList st) = 1)"

definition reconcile :: "nat list option \<Rightarrow> tvc \<Rightarrow> (js_error + reconciled) \<times> tvc" where
  "reconcile upd st =
     (let loggedOff = loggedOffTheLastUser upd st;
          upd1 = (if loggedOff then Some [] else upd)
      in if List.find (\<lambda>x. field st x ''id'' = JStr ''__signin__'')
              (case upd1 of None \<Rightarrow> [] | Some l \<Rightarrow> l) \<noteq> None
            \<and> length (teamList st) > 0
         then
           (case (case List.find (\<lambda>x. field st x ''id'' \<noteq> JStr ''__signin__''
                                         \<and> truthy (field st x ''webView'')) (teamList st) of
                    None \<Rightarrow> (Inr (), st)
                  | Some anyOtherTeam \<Rightarrow>
                      call_webview (field st anyOtherTeam ''webView'') WebView_refreshTeams st) of
              (Inl e, st1) \<Rightarrow> (Inl e, st1)
            | (Inr u, st1) \<Rightarrow> (Inr Returned, st1))
         else
           (case shouldMergeTeamList upd1 st of
              (False, st1) \<Rightarrow> (Inr (Reconciled loggedOff [] [] False), st1)
            | (True, st1) \<Rightarrow>
                (case mergeTeamList upd1 st1 of
                   (Inl e, st2) \<Rightarrow> (Inl e, st2)
                 | (Inr merged, st2) \<Rightarrow>
                     (Inr (Reconciled loggedOff (newTeams merged) (toDispose merged) True), st2))))"

text \<open>The loop \<open>for (var team of this.teamList) this.fetchTeam(team.team_id)\<close>.\<close>

fun fetchTeams :: "nat list \<Rightarrow> tvc \<Rightarrow> (js_error + unit) \<times> tvc" where
  "fetchTeams [] st = (Inr (), st)"
| "fetchTeams (team # rest) st =
     (case fetchTeam (field st team ''team_id'') False st of
        (Inl e, st1) \<Rightarrow> (Inl e, st1)
      | (Inr t, st1) \<Rightarrow> fetchTeams rest st1)"

text \<open>\<open>toDispose.dispose()\<close>: every collected webview is disposed, in order.\<close>

fun disposeAll :: "jsval list \<Rightarrow> tvc \<Rightarrow> (js_error + unit) \<times> tvc" where
  "disposeAll [] st = (Inr (), st)"
| "disposeAll (v # vs) st =
     (case call_webview v WebView_dispose st of
        (Inl e, st1) \<Rightarrow> (Inl e, st1)
      | (Inr u, st1) \<Rightarrow> disposeAll vs st1)"

text \<open>
  The second half of \<open>presentAvailableTeams\<close>, from \<open>serializeTeamList()\<close> on.
  \<open>updateTeamThemes()\<close> and \<open>updateTeamMenu()\<close> start asynchronous work and are
  recorded as effects.
\<close>

definition present ::
  "bool \<Rightarrow> nat list \<Rightarrow> jsval list \<Rightarrow> bool \<Rightarrow> tvc \<Rightarrow> (js_error + unit) \<times> tvc" where
  "present loggedOff added disposables didMergeTeamList st =
     (let st1 = serializeTeamList st
      in if length (teamList st1) = 0 \<or> loggedOff
         then
           (case makeTeamPrimary None st1 of
              (Inl e, st2) \<Rightarrow> (Inl e, st2)
            | (Inr r, st2) \<Rightarrow> (Inr (), emit LoginDialog_show (emit (LoginDialog_setCancelable False) st2)))
         else
           (case fetchTeams (teamList st1) st1 of
              (Inl e, st2) \<Rightarrow> (Inl e, st2)
            | (Inr u, st2) \<Rightarrow>
                (case (if length added > 0 then makeTeamPrimary (Some (added ! 0)) st2
                       else if (case primaryTeam st2 of
                                  None \<Rightarrow> True
                                | Some p \<Rightarrow>
                                    List.find (\<lambda>x. field st2 x ''team_id'' = field st2 p ''team_id'')
                                      (teamList st2) = None)
                       then makeTeamPrimary (Some (teamList st2 ! 0)) st2
                       else (Inr ReturnedNull, st2)) of
                   (Inl e, st3) \<Rightarrow> (Inl e, st3)
                 | (Inr r, st3) \<Rightarrow>
                     (case (if length (teamList st3) = 1
                               \<and> field st3 (teamList st3 ! 0) ''id'' = JStr ''__signin__''
                            then (case field st3 (teamList st3 ! 0) ''webViewLoaded'' of
                                    JObservable w \<Rightarrow> (Inr (), emit (Subscribe_webViewLoaded w) st3)
                                  | _ \<Rightarrow> (Inl TypeError, st3))
                            else (Inr (), st3)) of
                        (Inl e, st4) \<Rightarrow> (Inl e, st4)
                      | (Inr u, st4) \<Rightarrow>
                          (let st5 =
                                 (if didMergeTeamList
                                  then
                                    (let s1 = emit (TeamSelector_updateTeamList (teamList st4) (primaryTeam st4)) st4;
                                         s2 = emit (UpdateTeamThemes (teamList s1)) s1;
                                         s3 = emit (UpdateTeamMenu (teamList s2)) s2
                                     in if hasReporter s3
                                        then emit (Reporter_sendEvent ''session'' ''teamCount'') s3
                                        else s3)
                                  else st4)
                           in disposeAll disposables st5)))))"

definition presentAvailableTeams :: "nat list option \<Rightarrow> tvc \<Rightarrow> (js_error + unit) \<times> tvc" where
  "presentAvailableTeams updatedTeamList st =
     (case reconcile updatedTeamList st of
        (Inl e, st1) \<Rightarrow> (Inl e, st1)
      | (Inr Returned, st1) \<Rightarrow> (Inr (), st1)
      | (Inr (Reconciled loggedOff added disposables didMergeTeamList), st1) \<Rightarrow>
          present loggedOff added disposables didMergeTeamList st1)"

section \<open>The network status state machine\<close>

text \<open>
  \<open>NetworkStatus\<close> is a CoffeeScript class: \<open>reason: -> @_reason\<close> and
  \<open>browserIsOnline: -> @isOnline()\<close> are methods. \<open>reason\<close> is what the call
  \<open>networkStatus.reason()\<close> returns; \<open>reason_member\<close> is what the expression
  \<open>networkStatus.reason\<close>, without a call, evaluates to: the method itself.
\<close>

definition reason :: "network_status \<Rightarrow> jsval" where
  "reason ns = (case ns_reason ns of None \<Rightarrow> JUndefined | Some r \<Rightarrow> JStr r)"

definition reason_member :: "network_status \<Rightarrow> jsval" where
  "reason_member ns = JFunction ''reason''"

definition browserIsOnline :: "network_status \<Rightarrow> bool" where
  "browserIsOnline ns = ns_isOnline ns"

text \<open>
  The subscriber that \<open>setupNetworkStatusStateMachine\<close> attaches to
  \<open>statusObservable()\<close>, run for each status the observable yields.
\<close>

definition onNetworkStatus :: "bool \<Rightarrow> tvc \<Rightarrow> (js_error + unit) \<times> tvc" where
  "onNetworkStatus online st =
     (if online then presentAvailableTeams None st
      else
        (case makeTeamPrimary None st of
           (Inl e, st1) \<Rightarrow> (Inl e, st1)
         | (Inr r, st1) \<Rightarrow>
             if browserIsOnline (networkStatus st1)
                \<and> reason_member (networkStatus st1) = JStr ''slackDown''
             then
               (Inr (),
                emit LoadingScreen_showSlackDown
                  (if hasReporter st1 then emit (Reporter_sendEvent ''session'' ''slackIsDown'') st1
                   else st1))
             else (Inr (), emit LoadingScreen_showOffline st1)))"

section \<open>Webview crashes\<close>

text \<open>
  The events merged by \<open>SlackWebViewContext.setUpErrorHandling\<close> and the string each
  is mapped to. A plugin crash carries the two values the template string prints.
\<close>

datatype crash_event =
    Crashed
  | GpuCrashed
  | PluginCrashed string string
  | SsbLoadTimeout
  | FakeCrash

fun crash_type :: "crash_event \<Rightarrow> string" where
  "crash_type Crashed = ''Renderer''"
| "crash_type GpuCrashed = ''GPU''"
| "crash_type (PluginCrashed n v) = ''Plugin '' @ n @ '' '' @ v"
| "crash_type SsbLoadTimeout = ''Load timeout''"
| "crash_type FakeCrash = ''Unit test''"

definition startsWith :: "string \<Rightarrow> string \<Rightarrow> bool" where
  "startsWith s p = (take (length p) s = p)"

text \<open>
  \<open>handleWebViewCrash(type, teamUrl)\<close>: the effects of the call itself, and those of
  the callback it hands to \<open>dialog.showMessageBox\<close>, which runs when the dialog is
  answered with the index of the button. The dialog effect carries the crash type its
  text is built from.
\<close>

definition handleWebViewCrash :: "string \<Rightarrow> jsval \<Rightarrow> effect list" where
  "handleWebViewCrash type teamUrl =
     (if startsWith type ''Plugin'' then []
      else if teamUrl \<noteq> JStr ''https://tinyspeck.slack.com/''
      then [SendToBrowser ''window:reload'' []]
      else [Dialog_showMessageBox type])"

definition crashDialogAnswered :: "int \<Rightarrow> effect list" where
  "crashDialogAnswered response =
     (if response = 1 then [Shell_openItem_logs] else []) @ [SendToBrowser ''window:reload'' []]"

section \<open>SlackWebViewContext.executeJavaScript\<close>

text \<open>
  The reply of the embedded page to an evaluation request, as \<open>rendererEvalAsync\<close>
  sends it: the correlation id, the JSON text of the result (\<open>None\<close> for
  \<open>null\<close> or absent) and the error (message and stack, \<open>None\<close> when absent).
\<close>

record eval_reply =
  reply_id :: string
  reply_result :: "string option"
  reply_error :: "(string \<times> string) option"

record ipc_message =
  channel :: string
  args :: "eval_reply list"

text \<open>
  What an observable promise ends with. A resolved value is \<open>None\<close> for
  \<open>null\<close>, otherwise what \<open>JSON.parse\<close> returned.
\<close>

datatype 'j outcome = Resolved "'j option" | Rejected string | CompletedEmpty

text \<open>The predicate of \<open>.where(...)\<close>: the replies correlated with this request.\<close>

definition isReplyTo :: "string \<Rightarrow> ipc_message \<Rightarrow> bool" where
  "isReplyTo msgId x =
     (if channel x \<noteq> ''eval-async'' then False
      else if length (args x) \<noteq> 1 then False
      else if \<not> ((case reply_result (args x ! 0) of None \<Rightarrow> False | Some r \<Rightarrow> r \<noteq> [])
                 \<or> reply_error (args x ! 0) \<noteq> None) then False
      else reply_id (args x ! 0) = msgId)"

text \<open>
  The selector of \<open>.flatMap(...)\<close>: the observable a reply is turned into.
  \<open>JSON.parse\<close> is a parameter; where it answers \<open>None\<close> it throws a
  \<open>SyntaxError\<close>, which the operator turns into an error of the stream.
\<close>

definition replyToObservable :: "(string \<Rightarrow> 'j option) \<Rightarrow> ipc_message \<Rightarrow> 'j outcome" where
  "replyToObservable json_parse x =
     (let thisMsg = args x ! 0
      in case reply_error thisMsg of
           Some (message, stack) \<Rightarrow> Rejected (message @ [CHR 0x0A] @ stack)
         | None \<Rightarrow>
             (case reply_result thisMsg of
                None \<Rightarrow> Resolved None
              | Some r \<Rightarrow>
                  (case json_parse r of
                     None \<Rightarrow> Rejected ''SyntaxError''
                   | Some v \<Rightarrow> Resolved (Some v))))"

text \<open>
  \<open>.where(...).flatMap(...).take(1)\<close> over the messages of \<open>webViewIpc\<close>, each
  with the time (in milliseconds after the subscription) at which it arrives: the first
  correlated reply decides, the stream of messages itself never ends.
\<close>

definition firstReply ::
  "string \<Rightarrow> (string \<Rightarrow> 'j option) \<Rightarrow> (nat \<times> ipc_message) list \<Rightarrow> (nat \<times> 'j outcome) option" where
  "firstReply msgId json_parse messages =
     (case List.find (\<lambda>(t, x). isReplyTo msgId x) messages of
        None \<Rightarrow> None
      | Some (t, x) \<Rightarrow> Some (t, replyToObservable json_parse x))"

text \<open>\<open>.timeout(dueTime)\<close>: an error unless something arrives before the time is up.\<close>

definition timeout_after :: "nat \<Rightarrow> (nat \<times> 'j outcome) option \<Rightarrow> nat \<times> 'j outcome" where
  "timeout_after dueTime r =
     (case r of
        None \<Rightarrow> (dueTime, Rejected ''Timeout'')
      | Some (t, outcome) \<Rightarrow> if t < dueTime then (t, outcome) else (dueTime, Rejected ''Timeout''))"

text \<open>\<open>.catch(() => rx.Observable.return(null))\<close>: every error becomes \<open>null\<close>.\<close>

definition catch_return_null :: "nat \<times> 'j outcome \<Rightarrow> nat \<times> 'j outcome" where
  "catch_return_null r =
     (case r of
        (t, Rejected e) \<Rightarrow> (t, Resolved None)
      | (t, outcome) \<Rightarrow> (t, outcome))"

text \<open>
  \<open>executeJavaScript(code)\<close>: when and with what the returned observable promise
  ends, given the correlation id \<open>uuid.v4()\<close> drew and the messages that arrive.
  \<open>hasWebView\<close> is \<open>this.wv\<close> being set.
\<close>

definition executeJavaScript ::
  "bool \<Rightarrow> string \<Rightarrow> (string \<Rightarrow> 'j option) \<Rightarrow> (nat \<times> ipc_message) list \<Rightarrow> nat \<times> 'j outcome" where
  "executeJavaScript hasWebView msgId json_parse messages =
     (if \<not> hasWebView then (0, CompletedEmpty)
      else catch_return_null (timeout_after (10 * 1000) (firstReply msgId json_parse messages)))"

section \<open>The badge aggregation as the specification words it\<close>

text \<open>
  The connection status as an enumeration with the ordering
  \<open>online (0) < connecting (1) < offline (2)\<close>, a badge state as the triple
  \<open>(unread_highlights, unread, connection_status)\<close>, and the recomputation as a fold:
  both counts are summed and the worst status wins.
\<close>

datatype connection_status = Online | Connecting | Offline


fun status_name :: "connection_status \<Rightarrow> string" where
  "status_name Online = ''online''"
| "status_name Connecting = ''connecting''"
| "status_name Offline = ''offline''"


type_synonym badge_state = "int \<times> int \<times> connection_status"


text \<open>
  The badge object a team carries for a badge state: the counts as the page sends them
  with \<open>setBadgeCount\<close>, the status as \<open>setConnectionStatus\<close> stores it.
\<close>

definition stored_badge :: "badge_state \<Rightarrow> jsval" where
  "stored_badge b =
     (case b of
        (unread_highlights, unread_count, status) \<Rightarrow>
          JBadge \<lparr>unread = Some unread_count, unreadHighlights = Some unread_highlights,
                  connectionStatus = Some (storedConnectionStatus (status_name status))\<rparr>)"

section \<open>Notions used to state the properties\<close>

text \<open>A sequence of \<open>mergeTeamList\<close> calls, each on the state the previous one left.\<close>

fun mergeTeamLists :: "nat list option list \<Rightarrow> tvc \<Rightarrow> tvc" where
  "mergeTeamLists [] st = st"
| "mergeTeamLists (upd # upds) st = mergeTeamLists upds (snd (mergeTeamList upd st))"

text \<open>
  Along such a sequence, every list that arrives while the registry is empty (and is
  therefore adopted as it is) has unique \<open>team_id\<close>s.
\<close>

fun bootstraps_unique :: "nat list option list \<Rightarrow> tvc \<Rightarrow> bool" where
  "bootstraps_unique [] st = True"
| "bootstraps_unique (upd # upds) st =
     ((case upd of
         None \<Rightarrow> True
       | Some updatedTeamList \<Rightarrow>
           teamList st = [] \<longrightarrow> distinct (team_ids (heap st) updatedTeamList))
      \<and> bootstraps_unique upds (snd (mergeTeamList upd st)))"

text \<open>No object of the theme cache has the property \<open>key\<close>.\<close>

definition cache_lacks_key :: "(string \<rightharpoonup> jsobj) \<Rightarrow> string \<Rightarrow> bool" where
  "cache_lacks_key cache key = (\<forall>k d. cache k = Some d \<longrightarrow> d key = None)"

text \<open>Two heaps give every object the same \<open>team_id\<close>.\<close>

definition same_ids :: "(nat \<Rightarrow> jsobj) \<Rightarrow> (nat \<Rightarrow> jsobj) \<Rightarrow> bool" where
  "same_ids h h' = (\<forall>x. get_prop (h' x) ''team_id'' = get_prop (h x) ''team_id'')"

text \<open>
  Concrete data for the examples: a controller as the constructor leaves it when local
  storage holds neither teams nor theme data, and a few team objects as the page sends
  them.
\<close>

definition empty_tvc :: tvc where
  "empty_tvc =
     \<lparr>heap = (\<lambda>a. Map.empty), teamList = [], primaryTeam = None, primaryTeamDisp = None,
      haveMergedTeamListOnce = False, savedTsDevMenu = False, hasReporter = False,
      themeInfo = Map.empty,
      networkStatus = \<lparr>ns_isOnline = True, ns_reason = None, ns_currentStatus = None\<rparr>,
      webViewCount = 0, effects = []\<rparr>"

definition team_T1 :: jsobj where
  "team_T1 = [''id'' \<mapsto> JStr ''U1'', ''team_id'' \<mapsto> JStr ''T1'', ''team_name'' \<mapsto> JStr ''One'']"

definition team_T1_renamed :: jsobj where
  "team_T1_renamed =
     [''id'' \<mapsto> JStr ''U1'', ''team_id'' \<mapsto> JStr ''T1'', ''team_name'' \<mapsto> JStr ''Uno'']"

definition team_T2 :: jsobj where
  "team_T2 = [''id'' \<mapsto> JStr ''U2'', ''team_id'' \<mapsto> JStr ''T2'', ''team_name'' \<mapsto> JStr ''Two'']"

definition signin_team :: jsobj where
  "signin_team =
     [''id'' \<mapsto> JStr ''__signin__'', ''team_id'' \<mapsto> JStr ''__signin__'',
      ''reason'' \<mapsto> JStr ''didSignIn'']"

text \<open>
  A team \<open>T1\<close> with a live webview, a signin placeholder with a live webview, and a
  controller whose registry is \<open>[T1]\<close> while the object of an update that renames
  \<open>T1\<close> waits at address 2.
\<close>

definition team_T1_live :: jsobj where
  "team_T1_live =
     team_T1(''webView'' \<mapsto> JWebView 0, ''webViewLoaded'' \<mapsto> JObservable 0,
             ''icons'' \<mapsto> JObj 5, ''initials'' \<mapsto> JStr ''O'')"

definition signin_live :: jsobj where
  "signin_live =
     signin_team(''webView'' \<mapsto> JWebView 9, ''webViewLoaded'' \<mapsto> JObservable 9)"

definition registry_T1 :: tvc where
  "registry_T1 =
     empty_tvc\<lparr>heap := (\<lambda>a. Map.empty)(1 := team_T1_live, 2 := team_T1_renamed), teamList := [1]\<rparr>"

text \<open>
  A controller whose registry is the signin placeholder alone (address 3, webview 9),
  with the objects of incoming updates at addresses 2 (team \<open>T1\<close>) and 4 (the
  dummy signin entry).
\<close>

definition registry_signin :: tvc where
  "registry_signin =
     empty_tvc\<lparr>heap := (\<lambda>a. Map.empty)(2 := team_T1_renamed, 3 := signin_live, 4 := signin_team),
               teamList := [3]\<rparr>"

text \<open>The dummy entry a closed webview sends (\<open>signinFakeTeamInfo\<close>).\<close>

definition signout_team :: jsobj where
  "signout_team =
     [''id'' \<mapsto> JStr ''__signin__'', ''team_id'' \<mapsto> JStr ''__signin__'',
      ''reason'' \<mapsto> JStr ''didSignOut'']"





text \<open>
  The number the loop of \<open>updateBadgeInfoForTeam\<close> works with for a status: a
  falsy \<open>connectionStatus\<close>, which \<open>online\<close> is, counts as \<open>-1\<close>.
\<close>

fun sortable :: "connection_status \<Rightarrow> int" where
  "sortable Online = - 1"
| "sortable Connecting = 1"
| "sortable Offline = 2"

text \<open>
  The example of the specification: two teams with the badge states
  \<open>(2, 5, online)\<close> and \<open>(0, 0, offline)\<close>, the first of them primary.
\<close>

definition two_badges :: tvc where
  "two_badges =
     empty_tvc\<lparr>heap := (\<lambda>a. Map.empty)
                  (1 := team_T1_live(''badgeInfo'' \<mapsto> stored_badge (2, 5, Online)),
                   6 := team_T2(''badgeInfo'' \<mapsto> stored_badge (0, 0, Offline))),
               teamList := [1, 6], primaryTeam := Some 1\<rparr>"

text \<open>The four properties that \<open>mergeTeamList\<close> carries over from the old record.\<close>

definition preserved_keys :: "string list" where
  "preserved_keys = [''webView'', ''webViewLoaded'', ''icons'', ''initials'']"

text \<open>
  What step 3 of \<open>mergeTeamList\<close> makes of the registry entry \<open>a\<close>, where
  \<open>h\<close> is the heap before the step, \<open>h'\<close> the heap after it and \<open>b\<close> the
  entry found afterwards under the \<open>team_id\<close> of \<open>a\<close>. Without a match in the
  update, \<open>a\<close> stays and is marked \<open>shouldDelete\<close>. With a match, the entry is
  the first matching incoming object, and each of its properties is the cached one if
  the theme cache has it for the team, else the old record's if the property is one of
  the four preserved ones and the old record has it, else the incoming object's own.
\<close>

definition entry_after ::
  "(string \<rightharpoonup> jsobj) \<Rightarrow> nat list \<Rightarrow> (nat \<Rightarrow> jsobj) \<Rightarrow> (nat \<Rightarrow> jsobj) \<Rightarrow> nat \<Rightarrow> nat \<Rightarrow> bool" where
  "entry_after cache upd h h' a b =
     (case List.find (\<lambda>x. get_prop (h x) ''team_id'' = get_prop (h a) ''team_id'') upd of
        None \<Rightarrow> b = a \<and> h' a ''shouldDelete'' = Some (JBool True)
      | Some n \<Rightarrow>
          b = n
          \<and> (\<forall>k. h' n k =
                (if fetchThemeInfoAndIconsForTeam cache (h a) k \<noteq> None
                 then fetchThemeInfoAndIconsForTeam cache (h a) k
                 else if k \<in> set preserved_keys \<and> h a k \<noteq> None
                 then h a k else h n k)))"

text \<open>
  A state in which the browser reports to be online and the health probe has failed with
  the reason \<open>slackDown\<close>: team 1 is registered, no team is primary.
\<close>

definition slack_is_down :: tvc where
  "slack_is_down =
     registry_T1\<lparr>networkStatus :=
       \<lparr>ns_isOnline = True, ns_reason = Some ''slackDown'', ns_currentStatus = Some True\<rparr>\<rparr>"

section \<open>Properties of getInitialsOfName\<close>

lemma split_space_not_Nil: "split_space s \<noteq> []"
  by (induction s) (auto split: list.splits)

lemma join_split_space: "join_space (split_space s) = s"
proof (induction s)
  case Nil
  show ?case by simp
next
  case (Cons c cs)
  obtain w ws where sp: "split_space cs = w # ws"
    using split_space_not_Nil [of cs] by (cases "split_space cs") auto
  show ?case
  proof (cases "c = CHR '' ''")
    case True
    with Cons sp show ?thesis by simp
  next
    case False
    with Cons sp show ?thesis by (cases ws) auto
  qed
qed

lemma split_space_no_space: "list_all (\<lambda>w. CHR '' '' \<notin> set w) (split_space s)"
  by (induction s) (auto split: list.splits)

lemma collect_initials_eq:
  "collect_initials ws acc = acc @ map hd (filter (\<lambda>w. w \<noteq> []) ws)"
proof (induction ws arbitrary: acc)
  case Nil
  show ?case by simp
next
  case (Cons w ws)
  show ?case
  proof (cases w)
    case Nil
    with Cons show ?thesis by simp
  next
    case (Cons c cs)
    with Cons.IH show ?thesis by simp
  qed
qed

text \<open>
  Claim C10. \<open>getInitialsOfName(name, maxLength)\<close> returns the empty string for a
  null, undefined or empty name. For a string it returns the first character of each
  non-empty word, in order, cut to \<open>maxLength\<close> characters (2 when the argument is
  left out), where the words are the pieces of the name between single spaces: joined
  with spaces they give the name back and none of them holds a space. Whatever the
  name, a returned string is never longer than \<open>maxLength\<close>.
\<close>

theorem getInitialsOfName_initials:
  "getInitialsOfName JNull m = Inr []
   \<and> getInitialsOfName JUndefined m = Inr []
   \<and> getInitialsOfName (JStr []) m = Inr []
   \<and> getInitialsOfName (JStr s) m =
       Inr (take (case m of None \<Rightarrow> 2 | Some k \<Rightarrow> k)
              (map hd (filter (\<lambda>w. w \<noteq> []) (split_space s))))
   \<and> join_space (split_space s) = s
   \<and> list_all (\<lambda>w. CHR '' '' \<notin> set w) (split_space s)
   \<and> (case getInitialsOfName name m of
         Inl e \<Rightarrow> True
       | Inr r \<Rightarrow> length r \<le> (case m of None \<Rightarrow> 2 | Some k \<Rightarrow> k))"
proof -
  have str: "getInitialsOfName (JStr s) m =
       Inr (take (case m of None \<Rightarrow> 2 | Some k \<Rightarrow> k)
              (map hd (filter (\<lambda>w. w \<noteq> []) (split_space s))))"
    by (cases s) (simp_all add: getInitialsOfName_def collect_initials_eq)
  have bound: "(case getInitialsOfName name m of
         Inl e \<Rightarrow> True
       | Inr r \<Rightarrow> length r \<le> (case m of None \<Rightarrow> 2 | Some k \<Rightarrow> k))"
    by (cases name) (simp_all add: getInitialsOfName_def)
  show ?thesis
    using str bound join_split_space [of s] split_space_no_space [of s]
    by (simp add: getInitialsOfName_def)
qed

section \<open>Properties of mergeTeamList\<close>

lemma fetchTheme_lacks:
  "cache_lacks_key cache key \<Longrightarrow> fetchThemeInfoAndIconsForTeam cache obj key = None"
  by (auto simp: cache_lacks_key_def fetchThemeInfoAndIconsForTeam_def split: option.splits)

lemma get_prop_extend_theme:
  "cache_lacks_key cache key \<Longrightarrow>
   get_prop (lodash_extend obj (fetchThemeInfoAndIconsForTeam cache obj')) key = get_prop obj key"
  by (simp add: get_prop_def lodash_extend_def map_add_def fetchTheme_lacks)

lemma get_prop_extend_pick:
  "key \<notin> set keys \<Longrightarrow>
   get_prop (lodash_extend obj (lodash_pick obj' keys)) key = get_prop obj key"
  by (simp add: get_prop_def lodash_extend_def lodash_pick_def map_add_def restrict_map_def)

lemma same_ids_team_ids: "same_ids h h' \<Longrightarrow> team_ids h' as = team_ids h as"
  by (simp add: same_ids_def team_ids_def)

lemma same_ids_refl: "same_ids h h"
  by (simp add: same_ids_def)

lemma same_ids_trans: "same_ids h h' \<Longrightarrow> same_ids h' h'' \<Longrightarrow> same_ids h h''"
  by (simp add: same_ids_def)

lemma find_None_iff_ids:
  "(List.find (\<lambda>x. get_prop (h x) ''team_id'' = v) as = None) = (v \<notin> set (team_ids h as))"
  by (auto simp: find_None_iff team_ids_def)

lemma same_ids_extend_theme:
  "cache_lacks_key cache ''team_id'' \<Longrightarrow>
   same_ids h (h(a := lodash_extend (h a) (fetchThemeInfoAndIconsForTeam cache obj)))"
  by (simp add: same_ids_def get_prop_extend_theme)

lemma same_ids_extend_pick:
  "''team_id'' \<notin> set keys \<Longrightarrow> same_ids h (h(a := lodash_extend (h a) (lodash_pick obj keys)))"
  by (simp add: same_ids_def get_prop_extend_pick)

lemma same_ids_shouldDelete: "same_ids h (h(a := (h a)(''shouldDelete'' \<mapsto> v)))"
  by (simp add: same_ids_def get_prop_def)

text \<open>Step 2 changes no \<open>team_id\<close> and keeps the \<open>team_id\<close>s of the list unique.\<close>

lemma addNewTeams_same_ids:
  "cache_lacks_key cache ''team_id'' \<Longrightarrow>
   addNewTeams cache upd (h, teams, added) = (h', teams', added') \<Longrightarrow> same_ids h h'"
proof (induction upd arbitrary: h teams added h' teams' added')
  case Nil
  then show ?case by (simp add: same_ids_refl)
next
  case (Cons team rest)
  show ?case
  proof (cases "List.find (\<lambda>x. get_prop (h x) ''team_id'' = get_prop (h team) ''team_id'') teams = None")
    case False
    with Cons show ?thesis by simp
  next
    case True
    define h1 where "h1 = h(team := lodash_extend (h team) (fetchThemeInfoAndIconsForTeam cache (h team)))"
    have step: "same_ids h h1"
      unfolding h1_def using Cons.prems(1) by (rule same_ids_extend_theme)
    have "addNewTeams cache rest (h1, teams @ [team], added @ [team]) = (h', teams', added')"
      using Cons.prems(2) True by (simp add: h1_def Let_def)
    from Cons.IH [OF Cons.prems(1) this] have "same_ids h1 h'" .
    with step show ?thesis by (rule same_ids_trans)
  qed
qed

lemma addNewTeams_distinct:
  "cache_lacks_key cache ''team_id'' \<Longrightarrow>
   addNewTeams cache upd (h, teams, added) = (h', teams', added') \<Longrightarrow>
   distinct (team_ids h teams) \<Longrightarrow> distinct (team_ids h' teams')"
proof (induction upd arbitrary: h teams added h' teams' added')
  case Nil
  then show ?case by simp
next
  case (Cons team rest)
  show ?case
  proof (cases "List.find (\<lambda>x. get_prop (h x) ''team_id'' = get_prop (h team) ''team_id'') teams = None")
    case False
    with Cons show ?thesis by simp
  next
    case True
    define h1 where "h1 = h(team := lodash_extend (h team) (fetchThemeInfoAndIconsForTeam cache (h team)))"
    have step: "same_ids h h1"
      unfolding h1_def using Cons.prems(1) by (rule same_ids_extend_theme)
    have new: "get_prop (h team) ''team_id'' \<notin> set (team_ids h teams)"
      using True by (simp add: find_None_iff_ids)
    have "distinct (team_ids h (teams @ [team]))"
      using Cons.prems(3) new by (simp add: team_ids_def)
    then have d: "distinct (team_ids h1 (teams @ [team]))"
      using same_ids_team_ids [OF step] by simp
    have "addNewTeams cache rest (h1, teams @ [team], added @ [team]) = (h', teams', added')"
      using Cons.prems(2) True by (simp add: h1_def Let_def)
    from Cons.IH [OF Cons.prems(1) this d] show ?thesis .
  qed
qed

text \<open>Step 3 changes no \<open>team_id\<close>, neither of an object nor at a position of the list.\<close>

lemma updateExistingTeams_same_ids:
  "cache_lacks_key cache ''team_id'' \<Longrightarrow>
   updateExistingTeams cache upd items h = (items', h') \<Longrightarrow>
   same_ids h h' \<and> team_ids h' items' = team_ids h items"
proof (induction items arbitrary: h items' h')
  case Nil
  then show ?case by (simp add: same_ids_refl team_ids_def)
next
  case (Cons item rest)
  show ?case
  proof (cases "List.find (\<lambda>x. get_prop (h x) ''team_id'' = get_prop (h item) ''team_id'') upd")
    case None
    define h1 where "h1 = h(item := (h item)(''shouldDelete'' \<mapsto> JBool True))"
    obtain rest' h2 where r: "updateExistingTeams cache upd rest h1 = (rest', h2)"
      by (cases "updateExistingTeams cache upd rest h1") auto
    have eq: "items' = item # rest'" "h' = h2"
      using Cons.prems(2) None r by (simp_all add: h1_def)
    have step: "same_ids h h1"
      unfolding h1_def by (rule same_ids_shouldDelete)
    from Cons.IH [OF Cons.prems(1) r]
    have ih: "same_ids h1 h2" "team_ids h2 rest' = team_ids h1 rest"
      by simp_all
    have s: "same_ids h h2"
      using step ih(1) by (rule same_ids_trans)
    show ?thesis
      using s ih(2) same_ids_team_ids [OF step, of rest] eq
      by (simp add: team_ids_def same_ids_def)
  next
    case (Some newTeam)
    define h1 where "h1 = h(newTeam := lodash_extend (h newTeam)
                      (lodash_pick (h item) [''webView'', ''webViewLoaded'', ''icons'', ''initials'']))"
    define h2 where "h2 = h1(newTeam := lodash_extend (h1 newTeam)
                      (fetchThemeInfoAndIconsForTeam cache (h1 newTeam)))"
    obtain rest' h3 where r: "updateExistingTeams cache upd rest h2 = (rest', h3)"
      by (cases "updateExistingTeams cache upd rest h2") auto
    have eq: "items' = newTeam # rest'" "h' = h3"
      using Cons.prems(2) Some r by (simp_all add: h1_def h2_def Let_def)
    have same: "get_prop (h newTeam) ''team_id'' = get_prop (h item) ''team_id''"
      using Some by (auto dest: find_Some_iff [THEN iffD1])
    have step1: "same_ids h h1"
      unfolding h1_def by (rule same_ids_extend_pick) simp
    have step2: "same_ids h1 h2"
      unfolding h2_def using Cons.prems(1) by (rule same_ids_extend_theme)
    have step: "same_ids h h2"
      using step1 step2 by (rule same_ids_trans)
    from Cons.IH [OF Cons.prems(1) r]
    have ih: "same_ids h2 h3" "team_ids h3 rest' = team_ids h2 rest"
      by simp_all
    have s: "same_ids h h3"
      using step ih(1) by (rule same_ids_trans)
    show ?thesis
      using s ih(2) same_ids_team_ids [OF step, of rest] eq same
      by (simp add: team_ids_def same_ids_def)
  qed
qed

text \<open>Step 4 keeps exactly the entries that are not marked.\<close>

lemma removeDeleted_filter:
  "fst (removeDeleted h items) = filter (\<lambda>t. \<not> truthy (get_prop (h t) ''shouldDelete'')) items"
  by (induction items) (auto simp: Let_def split: prod.splits)

lemma distinct_team_ids_filter:
  "distinct (team_ids h items) \<Longrightarrow> distinct (team_ids h (filter P items))"
  by (simp add: team_ids_def distinct_map_filter)

lemma mergeTeamList_themeInfo: "themeInfo (snd (mergeTeamList upd st)) = themeInfo st"
  by (auto simp: mergeTeamList_def call_webview_def emit_def Let_def
           split: option.splits prod.splits sum.splits jsval.splits)

text \<open>
  The state after the main path of \<open>mergeTeamList\<close> (steps 1 to 4), in terms of the
  four steps.
\<close>

lemma mergeTeamList_main_path:
  assumes "teamList st \<noteq> []"
    and "List.find (\<lambda>x. field st x ''team_id'' = JStr ''__signin__'') l = None"
    and "fixupSigninTeam l st = (h1, tl1)"
    and "addNewTeams (themeInfo st) l (h1, tl1, []) = (h2, tl2, added)"
    and "updateExistingTeams (themeInfo st) l tl2 h2 = (tl3, h3)"
  shows "mergeTeamList (Some l) st =
           (Inr \<lparr>newTeams = added, toDispose = snd (removeDeleted h3 tl3)\<rparr>,
            st\<lparr>heap := h3, teamList := fst (removeDeleted h3 tl3)\<rparr>)"
  using assms by (simp add: mergeTeamList_def split: prod.splits)

lemma fixupSigninTeam_distinct:
  assumes "distinct (team_ids (heap st) (teamList st))" and "fixupSigninTeam l st = (h1, tl1)"
  shows "distinct (team_ids h1 tl1)"
  using assms by (auto simp: fixupSigninTeam_def team_ids_def split: option.splits if_splits)

lemma mergeTeamList_distinct:
  assumes d: "distinct (team_ids (heap st) (teamList st))"
    and c: "cache_lacks_key (themeInfo st) ''team_id''"
    and b: "\<And>l. upd = Some l \<Longrightarrow> teamList st = [] \<Longrightarrow> distinct (team_ids (heap st) l)"
  shows "distinct (team_ids (heap (snd (mergeTeamList upd st)))
                            (teamList (snd (mergeTeamList upd st))))"
proof (cases upd)
  case None
  with d show ?thesis by (simp add: mergeTeamList_def)
next
  case (Some l)
  show ?thesis
  proof (cases "teamList st = []")
    case True
    with Some b show ?thesis by (simp add: mergeTeamList_def)
  next
    case ne: False
    show ?thesis
    proof (cases "List.find (\<lambda>x. field st x ''team_id'' = JStr ''__signin__'') l = None")
      case False
      with Some ne d show ?thesis
        by (auto simp: mergeTeamList_def call_webview_def emit_def
                 split: prod.splits sum.splits jsval.splits)
    next
      case nosignin: True
      obtain h1 tl1 where f: "fixupSigninTeam l st = (h1, tl1)"
        by (cases "fixupSigninTeam l st") auto
      obtain h2 tl2 added where a: "addNewTeams (themeInfo st) l (h1, tl1, []) = (h2, tl2, added)"
        by (cases "addNewTeams (themeInfo st) l (h1, tl1, [])") auto
      obtain tl3 h3 where u: "updateExistingTeams (themeInfo st) l tl2 h2 = (tl3, h3)"
        by (cases "updateExistingTeams (themeInfo st) l tl2 h2") auto
      have d1: "distinct (team_ids h1 tl1)"
        using d f by (rule fixupSigninTeam_distinct)
      have d2: "distinct (team_ids h2 tl2)"
        using addNewTeams_distinct [OF c a d1] .
      have d3: "distinct (team_ids h3 tl3)"
        using updateExistingTeams_same_ids [OF c u] d2 by simp
      show ?thesis
        using d3 Some
        by (simp add: mergeTeamList_main_path [OF ne nosignin f a u]
                      removeDeleted_filter distinct_team_ids_filter)
    qed
  qed
qed

lemma fetchTheme_cong:
  "get_prop obj ''team_id'' = get_prop obj' ''team_id'' \<Longrightarrow>
   fetchThemeInfoAndIconsForTeam cache obj = fetchThemeInfoAndIconsForTeam cache obj'"
  by (simp add: fetchThemeInfoAndIconsForTeam_def)

lemma same_ids_find:
  "same_ids h h' \<Longrightarrow>
   List.find (\<lambda>x. get_prop (h' x) ''team_id'' = get_prop (h' a) ''team_id'') l =
   List.find (\<lambda>x. get_prop (h x) ''team_id'' = get_prop (h a) ''team_id'') l"
  by (simp add: same_ids_def)

lemma addNewTeams_frame:
  "cache_lacks_key cache ''team_id'' \<Longrightarrow>
   addNewTeams cache upd (h, teams, added) = (h', teams', added') \<Longrightarrow>
   get_prop (h x) ''team_id'' \<in> set (team_ids h teams) \<Longrightarrow> h' x = h x \<and> set teams \<subseteq> set teams'"
proof (induction upd arbitrary: h teams added h' teams' added')
  case Nil
  then show ?case by simp
next
  case (Cons team rest)
  show ?case
  proof (cases "List.find (\<lambda>x. get_prop (h x) ''team_id'' = get_prop (h team) ''team_id'') teams = None")
    case False
    with Cons show ?thesis by simp
  next
    case True
    define h1 where "h1 = h(team := lodash_extend (h team) (fetchThemeInfoAndIconsForTeam cache (h team)))"
    have step: "same_ids h h1"
      unfolding h1_def using Cons.prems(1) by (rule same_ids_extend_theme)
    have new: "get_prop (h team) ''team_id'' \<notin> set (team_ids h teams)"
      using True by (simp add: find_None_iff_ids)
    with Cons.prems(3) have ne: "x \<noteq> team" by auto
    have r: "addNewTeams cache rest (h1, teams @ [team], added @ [team]) = (h', teams', added')"
      using Cons.prems(2) True by (simp add: h1_def Let_def)
    have "get_prop (h1 x) ''team_id'' \<in> set (team_ids h1 (teams @ [team]))"
      using Cons.prems(3) same_ids_team_ids [OF step, of "teams @ [team]"] step
      by (simp add: same_ids_def team_ids_def)
    from Cons.IH [OF Cons.prems(1) r this] ne show ?thesis by (simp add: h1_def)
  qed
qed

lemma updateExistingTeams_frame:
  "cache_lacks_key cache ''team_id'' \<Longrightarrow>
   updateExistingTeams cache upd items h = (items', h') \<Longrightarrow>
   get_prop (h x) ''team_id'' \<notin> set (team_ids h items) \<Longrightarrow> h' x = h x"
proof (induction items arbitrary: h items' h')
  case Nil
  then show ?case by simp
next
  case (Cons item rest)
  show ?case
  proof (cases "List.find (\<lambda>x. get_prop (h x) ''team_id'' = get_prop (h item) ''team_id'') upd")
    case None
    define h1 where "h1 = h(item := (h item)(''shouldDelete'' \<mapsto> JBool True))"
    obtain rest' h2 where r: "updateExistingTeams cache upd rest h1 = (rest', h2)"
      by (cases "updateExistingTeams cache upd rest h1") auto
    have eq: "items' = item # rest'" "h' = h2"
      using Cons.prems(2) None r by (simp_all add: h1_def)
    have step: "same_ids h h1"
      unfolding h1_def by (rule same_ids_shouldDelete)
    have ne: "x \<noteq> item" using Cons.prems(3) by (auto simp: team_ids_def)
    have "get_prop (h1 x) ''team_id'' \<notin> set (team_ids h1 rest)"
      using Cons.prems(3) same_ids_team_ids [OF step, of rest] step
      by (simp add: same_ids_def team_ids_def)
    from Cons.IH [OF Cons.prems(1) r this] ne eq show ?thesis by (simp add: h1_def)
  next
    case (Some newTeam)
    define h1 where "h1 = h(newTeam := lodash_extend (h newTeam)
                      (lodash_pick (h item) [''webView'', ''webViewLoaded'', ''icons'', ''initials'']))"
    define h2 where "h2 = h1(newTeam := lodash_extend (h1 newTeam)
                      (fetchThemeInfoAndIconsForTeam cache (h1 newTeam)))"
    obtain rest' h3 where r: "updateExistingTeams cache upd rest h2 = (rest', h3)"
      by (cases "updateExistingTeams cache upd rest h2") auto
    have eq: "items' = newTeam # rest'" "h' = h3"
      using Cons.prems(2) Some r by (simp_all add: h1_def h2_def Let_def)
    have same: "get_prop (h newTeam) ''team_id'' = get_prop (h item) ''team_id''"
      using Some by (auto dest: find_Some_iff [THEN iffD1])
    have step1: "same_ids h h1"
      unfolding h1_def by (rule same_ids_extend_pick) simp
    have step2: "same_ids h1 h2"
      unfolding h2_def using Cons.prems(1) by (rule same_ids_extend_theme)
    have step: "same_ids h h2"
      using step1 step2 by (rule same_ids_trans)
    have ne: "x \<noteq> newTeam" using Cons.prems(3) same by (auto simp: team_ids_def)
    have "get_prop (h2 x) ''team_id'' \<notin> set (team_ids h2 rest)"
      using Cons.prems(3) same_ids_team_ids [OF step, of rest] step
      by (simp add: same_ids_def team_ids_def)
    from Cons.IH [OF Cons.prems(1) r this] ne eq show ?thesis by (simp add: h1_def h2_def)
  qed
qed


lemma pick_preserved:
  "lodash_pick obj [''webView'', ''webViewLoaded'', ''icons'', ''initials''] = obj |` set preserved_keys"
  by (simp add: lodash_pick_def preserved_keys_def)

lemma extend_pick_theme:
  "lodash_extend (lodash_extend obj (old |` P)) T k =
     (if T k \<noteq> None then T k else if k \<in> P \<and> old k \<noteq> None then old k else obj k)"
  by (cases "T k"; cases "old k"; simp add: lodash_extend_def map_add_def restrict_map_def)

lemma entry_after_cong:
  assumes "same_ids h h2" and "h2 a = h a"
    and "\<And>n. get_prop (h n) ''team_id'' = get_prop (h a) ''team_id'' \<Longrightarrow> h2 n = h n"
  shows "entry_after cache upd h2 h' a b = entry_after cache upd h h' a b"
proof -
  have f: "List.find (\<lambda>x. get_prop (h2 x) ''team_id'' = get_prop (h2 a) ''team_id'') upd =
           List.find (\<lambda>x. get_prop (h x) ''team_id'' = get_prop (h a) ''team_id'') upd"
    using assms(1) by (rule same_ids_find)
  show ?thesis
  proof (cases "List.find (\<lambda>x. get_prop (h x) ''team_id'' = get_prop (h a) ''team_id'') upd")
    case None
    with f show ?thesis by (simp add: entry_after_def)
  next
    case (Some n)
    then have "get_prop (h n) ''team_id'' = get_prop (h a) ''team_id''"
      by (auto dest: find_Some_iff [THEN iffD1])
    then have "h2 n = h n" by (rule assms(3))
    with f Some assms(2) show ?thesis by (simp add: entry_after_def)
  qed
qed

lemma updateExistingTeams_entry:
  assumes c: "cache_lacks_key cache ''team_id''"
    and d: "distinct (team_ids h items)"
    and u: "updateExistingTeams cache upd items h = (items', h')"
    and a: "a \<in> set items"
    and b: "b \<in> set items'"
    and eq: "get_prop (h' b) ''team_id'' = get_prop (h a) ''team_id''"
  shows "entry_after cache upd h h' a b"
  using d u a b eq
proof (induction items arbitrary: h items' h')
  case Nil
  then show ?case by simp
next
  case (Cons item rest)
  note ids = updateExistingTeams_same_ids [OF c Cons.prems(2)]
  have fresh: "get_prop (h item) ''team_id'' \<notin> set (team_ids h rest)"
    and drest: "distinct (team_ids h rest)"
    using Cons.prems(1) by (simp_all add: team_ids_def)
  show ?case
  proof (cases "List.find (\<lambda>x. get_prop (h x) ''team_id'' = get_prop (h item) ''team_id'') upd")
    case None
    define h1 where "h1 = h(item := (h item)(''shouldDelete'' \<mapsto> JBool True))"
    obtain rest' h2 where r: "updateExistingTeams cache upd rest h1 = (rest', h2)"
      by (cases "updateExistingTeams cache upd rest h1") auto
    have res: "items' = item # rest'" "h' = h2"
      using Cons.prems(2) None r by (simp_all add: h1_def)
    have step: "same_ids h h1"
      unfolding h1_def by (rule same_ids_shouldDelete)
    note ids_rest = updateExistingTeams_same_ids [OF c r]
    have rest_ids: "team_ids h2 rest' = team_ids h rest"
      using ids_rest same_ids_team_ids [OF step] by simp
    have keep: "h2 item = h1 item"
      using fresh step same_ids_team_ids [OF step, of rest]
      by (intro updateExistingTeams_frame [OF c r]) (simp add: same_ids_def)
    show ?thesis
    proof (cases "a = item")
      case True
      have "b \<notin> set rest'"
      proof
        assume "b \<in> set rest'"
        then have "get_prop (h2 b) ''team_id'' \<in> set (team_ids h2 rest')"
          by (auto simp: team_ids_def)
        with rest_ids Cons.prems(5) res True fresh show False by simp
      qed
      with Cons.prems(4) res have "b = item" by simp
      with True None keep res show ?thesis
        by (simp add: entry_after_def h1_def)
    next
      case False
      with Cons.prems(3) have ar: "a \<in> set rest" by simp
      then have "get_prop (h a) ''team_id'' \<in> set (team_ids h rest)"
        by (auto simp: team_ids_def)
      with fresh have neq: "get_prop (h a) ''team_id'' \<noteq> get_prop (h item) ''team_id''" by auto
      have "get_prop (h2 item) ''team_id'' = get_prop (h item) ''team_id''"
        using ids res by (simp add: same_ids_def)
      with Cons.prems(5) res neq have "b \<noteq> item" by auto
      with Cons.prems(4) res have br: "b \<in> set rest'" by simp
      have d1: "distinct (team_ids h1 rest)"
        using drest same_ids_team_ids [OF step] by simp
      have e1: "get_prop (h2 b) ''team_id'' = get_prop (h1 a) ''team_id''"
        using Cons.prems(5) res step by (simp add: same_ids_def)
      from Cons.IH [OF d1 r ar br e1] have "entry_after cache upd h1 h2 a b" .
      moreover have "entry_after cache upd h1 h2 a b = entry_after cache upd h h2 a b"
      proof (rule entry_after_cong [OF step])
        show "h1 a = h a" using False by (simp add: h1_def)
      next
        fix n assume "get_prop (h n) ''team_id'' = get_prop (h a) ''team_id''"
        with neq have "n \<noteq> item" by auto
        then show "h1 n = h n" by (simp add: h1_def)
      qed
      ultimately show ?thesis using res by simp
    qed
  next
    case (Some newTeam)
    define h1 where "h1 = h(newTeam := lodash_extend (h newTeam)
                      (lodash_pick (h item) [''webView'', ''webViewLoaded'', ''icons'', ''initials'']))"
    define h2 where "h2 = h1(newTeam := lodash_extend (h1 newTeam)
                      (fetchThemeInfoAndIconsForTeam cache (h1 newTeam)))"
    obtain rest' h3 where r: "updateExistingTeams cache upd rest h2 = (rest', h3)"
      by (cases "updateExistingTeams cache upd rest h2") auto
    have res: "items' = newTeam # rest'" "h' = h3"
      using Cons.prems(2) Some r by (simp_all add: h1_def h2_def Let_def)
    have same: "get_prop (h newTeam) ''team_id'' = get_prop (h item) ''team_id''"
      using Some by (auto dest: find_Some_iff [THEN iffD1])
    have step1: "same_ids h h1"
      unfolding h1_def by (rule same_ids_extend_pick) simp
    have step2: "same_ids h1 h2"
      unfolding h2_def using c by (rule same_ids_extend_theme)
    have step: "same_ids h h2"
      using step1 step2 by (rule same_ids_trans)
    note ids_rest = updateExistingTeams_same_ids [OF c r]
    have rest_ids: "team_ids h3 rest' = team_ids h rest"
      using ids_rest same_ids_team_ids [OF step] by simp
    have keep: "h3 newTeam = h2 newTeam"
      using fresh same step same_ids_team_ids [OF step, of rest]
      by (intro updateExistingTeams_frame [OF c r]) (simp add: same_ids_def)
    show ?thesis
    proof (cases "a = item")
      case True
      have "b \<notin> set rest'"
      proof
        assume "b \<in> set rest'"
        then have "get_prop (h3 b) ''team_id'' \<in> set (team_ids h3 rest')"
          by (auto simp: team_ids_def)
        with rest_ids Cons.prems(5) res True fresh show False by simp
      qed
      with Cons.prems(4) res have bn: "b = newTeam" by simp
      have th: "fetchThemeInfoAndIconsForTeam cache (h1 newTeam) =
                fetchThemeInfoAndIconsForTeam cache (h item)"
        using step1 same by (intro fetchTheme_cong) (simp add: same_ids_def)
      have "h1 newTeam = lodash_extend (h newTeam) (h item |` set preserved_keys)"
        by (simp add: h1_def pick_preserved)
      then have hn: "h2 newTeam =
          lodash_extend (lodash_extend (h newTeam) (h item |` set preserved_keys))
            (fetchThemeInfoAndIconsForTeam cache (h item))"
        using th by (simp add: h2_def)
      have "h2 newTeam k =
                (if fetchThemeInfoAndIconsForTeam cache (h item) k \<noteq> None
                 then fetchThemeInfoAndIconsForTeam cache (h item) k
                 else if k \<in> set preserved_keys \<and> h item k \<noteq> None
                 then h item k else h newTeam k)" for k
        unfolding hn by (rule extend_pick_theme)
      with True Some bn keep res show ?thesis
        by (simp add: entry_after_def)
    next
      case False
      with Cons.prems(3) have ar: "a \<in> set rest" by simp
      then have "get_prop (h a) ''team_id'' \<in> set (team_ids h rest)"
        by (auto simp: team_ids_def)
      with fresh have neq: "get_prop (h a) ''team_id'' \<noteq> get_prop (h item) ''team_id''" by auto
      have "get_prop (h3 newTeam) ''team_id'' = get_prop (h newTeam) ''team_id''"
        using ids res by (simp add: same_ids_def)
      with Cons.prems(5) res neq same have "b \<noteq> newTeam" by auto
      with Cons.prems(4) res have br: "b \<in> set rest'" by simp
      have d1: "distinct (team_ids h2 rest)"
        using drest same_ids_team_ids [OF step] by simp
      have e1: "get_prop (h3 b) ''team_id'' = get_prop (h2 a) ''team_id''"
        using Cons.prems(5) res step by (simp add: same_ids_def)
      from Cons.IH [OF d1 r ar br e1] have "entry_after cache upd h2 h3 a b" .
      moreover have "entry_after cache upd h2 h3 a b = entry_after cache upd h h3 a b"
      proof (rule entry_after_cong [OF step])
        have "a \<noteq> newTeam" using neq same by auto
        then show "h2 a = h a" by (simp add: h1_def h2_def)
      next
        fix n assume "get_prop (h n) ''team_id'' = get_prop (h a) ''team_id''"
        with neq same have "n \<noteq> newTeam" by auto
        then show "h2 n = h n" by (simp add: h1_def h2_def)
      qed
      ultimately show ?thesis using res by simp
    qed
  qed
qed

lemma distinct_at_most_one: "distinct xs \<Longrightarrow> length (filter (\<lambda>v. v = a) xs) \<le> 1"
  by (induction xs) (auto simp: filter_empty_conv)

text \<open>
  Claim C1, amended. Start from a registry with unique \<open>team_id\<close>s and run any
  sequence of \<open>mergeTeamList\<close> calls in which every list that arrives while the
  registry is empty has unique \<open>team_id\<close>s, with a theme cache none of whose objects
  has a \<open>team_id\<close> property. Then the resulting registry has unique \<open>team_id\<close>s
  and at most one team whose \<open>team_id\<close> is \<open>__signin__\<close>.
\<close>

theorem mergeTeamList_unique_team_ids:
  assumes "distinct (team_ids (heap st) (teamList st))"
    and "cache_lacks_key (themeInfo st) ''team_id''"
    and "bootstraps_unique updates st"
  shows "distinct (team_ids (heap (mergeTeamLists updates st)) (teamList (mergeTeamLists updates st)))
       \<and> length (filter (\<lambda>v. v = JStr ''__signin__'')
            (team_ids (heap (mergeTeamLists updates st)) (teamList (mergeTeamLists updates st)))) \<le> 1"
proof -
  have d: "distinct (team_ids (heap (mergeTeamLists updates st)) (teamList (mergeTeamLists updates st)))"
    using assms
  proof (induction updates arbitrary: st)
    case Nil
    then show ?case by simp
  next
    case (Cons upd upds)
    have d: "distinct (team_ids (heap (snd (mergeTeamList upd st)))
                                (teamList (snd (mergeTeamList upd st))))"
      using Cons.prems by (intro mergeTeamList_distinct) (auto split: option.splits)
    have c: "cache_lacks_key (themeInfo (snd (mergeTeamList upd st))) ''team_id''"
      using Cons.prems(2) by (simp add: mergeTeamList_themeInfo)
    have b: "bootstraps_unique upds (snd (mergeTeamList upd st))"
      using Cons.prems(3) by simp
    from Cons.IH [OF d c b] show ?case by simp
  qed
  from distinct_at_most_one [OF d, of "JStr ''__signin__''"] d show ?thesis by simp
qed

lemmas example_defs =
  empty_tvc_def team_T1_def team_T1_renamed_def team_T2_def signin_team_def
  team_T1_live_def signin_live_def registry_T1_def registry_signin_def signout_team_def
  reconcile_def shouldMergeTeamList_def loggedOffTheLastUser_def js_sort_def js_sort_le_def
  mergeTeamList_def fixupSigninTeam_def team_ids_def get_prop_def field_def
  fetchThemeInfoAndIconsForTeam_def
  lodash_extend_def lodash_pick_def call_webview_def emit_def Let_def

text \<open>
  Witness for C1: from the empty registry, the page sends \<open>[T1, T2]\<close> and then
  \<open>[T1]\<close> under a new name; the registry ends with the one team \<open>T1\<close>.
\<close>

theorem mergeTeamList_unique_team_ids_witness:
  "teamList (mergeTeamLists [Some [1, 2], Some [3]]
       (empty_tvc\<lparr>heap := (\<lambda>a. Map.empty)(1 := team_T1, 2 := team_T2, 3 := team_T1_renamed)\<rparr>)) = [3]
   \<and> distinct (team_ids
        (heap (mergeTeamLists [Some [1, 2], Some [3]]
           (empty_tvc\<lparr>heap := (\<lambda>a. Map.empty)(1 := team_T1, 2 := team_T2, 3 := team_T1_renamed)\<rparr>)))
        (teamList (mergeTeamLists [Some [1, 2], Some [3]]
           (empty_tvc\<lparr>heap := (\<lambda>a. Map.empty)(1 := team_T1, 2 := team_T2, 3 := team_T1_renamed)\<rparr>))))"
proof -
  let ?st = "empty_tvc\<lparr>heap := (\<lambda>a. Map.empty)(1 := team_T1, 2 := team_T2, 3 := team_T1_renamed)\<rparr>"
  have h1: "distinct (team_ids (heap ?st) (teamList ?st))"
    by (simp add: example_defs)
  have h2: "cache_lacks_key (themeInfo ?st) ''team_id''"
    by (simp add: empty_tvc_def cache_lacks_key_def)
  have h3: "bootstraps_unique [Some [1, 2], Some [3]] ?st"
    by (simp add: example_defs)
  have r: "teamList (mergeTeamLists [Some [1, 2], Some [3]] ?st) = [3]"
    by (simp add: example_defs)
  from mergeTeamList_unique_team_ids [OF h1 h2 h3] r show ?thesis by simp
qed

text \<open>
  Counterexample to C1 as stated. From the empty registry, an incoming list with two
  entries for \<open>T1\<close> is adopted as it is: the registry holds \<open>T1\<close> twice. And with
  a theme cache whose object for \<open>T2\<close> carries \<open>team_id = T1\<close>, merging
  \<open>[T1, T2]\<close> into the registry \<open>[T1]\<close> leaves the same object twice in the
  registry.
\<close>

theorem mergeTeamList_unique_team_ids_counterexample:
  "distinct (team_ids (heap empty_tvc) (teamList empty_tvc))
   \<and> \<not> distinct (team_ids
          (heap (mergeTeamLists [Some [1, 2]]
             (empty_tvc\<lparr>heap := (\<lambda>a. Map.empty)(1 := team_T1, 2 := team_T1_renamed)\<rparr>)))
          (teamList (mergeTeamLists [Some [1, 2]]
             (empty_tvc\<lparr>heap := (\<lambda>a. Map.empty)(1 := team_T1, 2 := team_T1_renamed)\<rparr>))))
   \<and> teamList (mergeTeamLists [Some [2, 3]]
        (empty_tvc\<lparr>heap := (\<lambda>a. Map.empty)(1 := team_T1, 2 := team_T1_renamed, 3 := team_T2),
                   teamList := [1],
                   themeInfo := [''T2'' \<mapsto> [''team_id'' \<mapsto> JStr ''T1'']]\<rparr>)) = [2, 2]"
  by (simp add: example_defs)


lemma distinct_ids_same:
  "distinct (team_ids h as) \<Longrightarrow> a \<in> set as \<Longrightarrow> b \<in> set as \<Longrightarrow>
   get_prop (h b) ''team_id'' = get_prop (h a) ''team_id'' \<Longrightarrow> b = a"
  by (auto simp: team_ids_def distinct_map dest: inj_onD)

lemma find_Some_set: "List.find P xs = Some x \<Longrightarrow> P x \<and> x \<in> set xs"
  by (induction xs) (auto split: if_splits)

lemma fixupSigninTeam_none:
  assumes "JStr ''__signin__'' \<in> set (team_ids (heap st) (teamList st)) \<Longrightarrow> l = []"
  shows "fixupSigninTeam l st = (heap st, teamList st)"
proof (cases "List.find (\<lambda>x. field st x ''team_id'' = JStr ''__signin__'') (teamList st)")
  case None
  then show ?thesis by (simp add: fixupSigninTeam_def)
next
  case (Some s)
  then have "JStr ''__signin__'' \<in> set (team_ids (heap st) (teamList st))"
    by (force dest: find_Some_set simp: team_ids_def field_def)
  with assms have "l = []" by simp
  with Some show ?thesis by (simp add: fixupSigninTeam_def)
qed

text \<open>
  Claim C2, amended. Take a registry with unique \<open>team_id\<close>s, a theme cache none of
  whose objects has a \<open>team_id\<close> property, and an update for which the placeholder
  fixup does not run (the registry holds no \<open>__signin__\<close> team, or the update is
  empty or itself holds a \<open>__signin__\<close> entry). If a team \<open>a\<close> with a non-null
  webview is in the registry before \<open>mergeTeamList\<close> and \<open>b\<close> is the record
  under the same \<open>team_id\<close> afterwards, then \<open>b\<close> holds the identical
  \<open>webView\<close>, and the identical \<open>webViewLoaded\<close>, \<open>icons\<close> and
  \<open>initials\<close> where the old record has them, except for a property that the theme
  cache holds for the team: the cached value wins. When the update has no
  \<open>__signin__\<close> entry, \<open>b\<close> is the first incoming object with that
  \<open>team_id\<close>, and all its other properties are the incoming ones (or the cached
  ones). When the update is null or holds a \<open>__signin__\<close> entry, \<open>b\<close> is
  the old record itself and the merge has changed neither the registry nor any object:
  no property takes the incoming or the cached value.
\<close>

theorem mergeTeamList_preserves_webView:
  assumes m: "mergeTeamList upd st = (Inr res, st')"
    and d: "distinct (team_ids (heap st) (teamList st))"
    and c: "cache_lacks_key (themeInfo st) ''team_id''"
    and nofix: "\<And>l. upd = Some l \<Longrightarrow> JStr ''__signin__'' \<in> set (team_ids (heap st) (teamList st)) \<Longrightarrow>
                 l = [] \<or> JStr ''__signin__'' \<in> set (team_ids (heap st) l)"
    and a: "a \<in> set (teamList st)"
    and wv: "truthy (field st a ''webView'')"
    and b: "b \<in> set (teamList st')"
    and same: "field st' b ''team_id'' = field st a ''team_id''"
  shows "(fetchThemeInfoAndIconsForTeam (themeInfo st) (heap st a) ''webView'' = None
            \<longrightarrow> field st' b ''webView'' = field st a ''webView'')
       \<and> (\<forall>k \<in> set preserved_keys.
             heap st a k \<noteq> None
             \<and> fetchThemeInfoAndIconsForTeam (themeInfo st) (heap st a) k = None
             \<longrightarrow> field st' b k = field st a k)
       \<and> (\<forall>l. upd = Some l \<and> JStr ''__signin__'' \<notin> set (team_ids (heap st) l) \<longrightarrow>
             List.find (\<lambda>x. field st x ''team_id'' = field st a ''team_id'') l = Some b
             \<and> (\<forall>k. heap st' b k =
                   (if fetchThemeInfoAndIconsForTeam (themeInfo st) (heap st a) k \<noteq> None
                    then fetchThemeInfoAndIconsForTeam (themeInfo st) (heap st a) k
                    else if k \<in> set preserved_keys \<and> heap st a k \<noteq> None
                    then heap st a k else heap st b k)))
       \<and> (upd = None \<or> (\<exists>l. upd = Some l \<and> JStr ''__signin__'' \<in> set (team_ids (heap st) l)) \<longrightarrow>
             b = a \<and> heap st' = heap st \<and> teamList st' = teamList st)"
proof -
  have key: "heap st a ''webView'' \<noteq> None"
    using wv by (auto simp: field_def get_prop_def split: option.splits)
  have unchanged: "?thesis" if h: "heap st' = heap st" and t: "teamList st' = teamList st"
    and u: "\<And>l. upd = Some l \<Longrightarrow> JStr ''__signin__'' \<in> set (team_ids (heap st) l)"
  proof -
    have "b = a"
      using b a same d h t by (auto intro: distinct_ids_same simp: field_def)
    with h t u show ?thesis by (auto simp: field_def)
  qed
  show ?thesis
  proof (cases upd)
    case None
    with m have "st' = st" by (simp add: mergeTeamList_def)
    with None show ?thesis by (intro unchanged) simp_all
  next
    case (Some l)
    from a have ne: "teamList st \<noteq> []" by auto
    show ?thesis
    proof (cases "List.find (\<lambda>x. field st x ''team_id'' = JStr ''__signin__'') l = None")
      case False
      with m Some ne have "heap st' = heap st" "teamList st' = teamList st"
        by (auto simp: mergeTeamList_def call_webview_def emit_def split: jsval.splits)
      moreover have "JStr ''__signin__'' \<in> set (team_ids (heap st) l)"
        using False by (simp add: field_def find_None_iff_ids)
      ultimately show ?thesis using Some by (intro unchanged) simp_all
    next
      case nosignin: True
      then have nos: "JStr ''__signin__'' \<notin> set (team_ids (heap st) l)"
        by (simp add: field_def find_None_iff_ids)
      with nofix [OF Some] have f: "fixupSigninTeam l st = (heap st, teamList st)"
        by (intro fixupSigninTeam_none) auto
      obtain h2 tl2 added where ad: "addNewTeams (themeInfo st) l (heap st, teamList st, []) = (h2, tl2, added)"
        by (cases "addNewTeams (themeInfo st) l (heap st, teamList st, [])") auto
      obtain tl3 h3 where u: "updateExistingTeams (themeInfo st) l tl2 h2 = (tl3, h3)"
        by (cases "updateExistingTeams (themeInfo st) l tl2 h2") auto
      from mergeTeamList_main_path [OF ne nosignin f ad u] m Some
      have st': "st' = st\<lparr>heap := h3, teamList := fst (removeDeleted h3 tl3)\<rparr>"
        by simp
      have ida: "get_prop (heap st a) ''team_id'' \<in> set (team_ids (heap st) (teamList st))"
        using a by (auto simp: team_ids_def)
      from addNewTeams_frame [OF c ad ida] have ha: "h2 a = heap st a" and sub: "set (teamList st) \<subseteq> set tl2"
        by simp_all
      have d2: "distinct (team_ids h2 tl2)"
        using addNewTeams_distinct [OF c ad d] .
      have a2: "a \<in> set tl2" using a sub by auto
      have b3: "b \<in> set tl3" and live: "\<not> truthy (get_prop (h3 b) ''shouldDelete'')"
        using b by (simp_all add: st' removeDeleted_filter)
      have e: "get_prop (h3 b) ''team_id'' = get_prop (h2 a) ''team_id''"
        using same by (simp add: st' field_def ha)
      from updateExistingTeams_entry [OF c d2 u a2 b3 e]
      have ea: "entry_after (themeInfo st) l h2 h3 a b" .
      have s02: "same_ids (heap st) h2"
        using addNewTeams_same_ids [OF c ad] .
      have fnd: "List.find (\<lambda>x. get_prop (h2 x) ''team_id'' = get_prop (h2 a) ''team_id'') l =
                 List.find (\<lambda>x. field st x ''team_id'' = field st a ''team_id'') l"
        unfolding field_def using s02 by (rule same_ids_find)
      show ?thesis
      proof (cases "List.find (\<lambda>x. get_prop (h2 x) ''team_id'' = get_prop (h2 a) ''team_id'') l")
        case None
        with ea have "b = a" "h3 a ''shouldDelete'' = Some (JBool True)"
          by (simp_all add: entry_after_def)
        with live show ?thesis by (simp add: get_prop_def)
      next
        case (Some n)
        with ea have bn: "b = n"
          and val: "\<And>k. h3 n k =
                (if fetchThemeInfoAndIconsForTeam (themeInfo st) (h2 a) k \<noteq> None
                 then fetchThemeInfoAndIconsForTeam (themeInfo st) (h2 a) k
                 else if k \<in> set preserved_keys \<and> h2 a k \<noteq> None
                 then h2 a k else h2 n k)"
          by (simp_all add: entry_after_def)
        have "get_prop (h2 n) ''team_id'' = get_prop (h2 a) ''team_id''"
          using Some by (auto dest: find_Some_set)
        then have "get_prop (heap st n) ''team_id'' \<in> set (team_ids (heap st) (teamList st))"
          using s02 ida ha by (simp add: same_ids_def)
        from addNewTeams_frame [OF c ad this] have hn: "h2 n = heap st n" by simp
        have h3': "heap st' = h3" by (simp add: st')
        have all: "heap st' b k =
                   (if fetchThemeInfoAndIconsForTeam (themeInfo st) (heap st a) k \<noteq> None
                    then fetchThemeInfoAndIconsForTeam (themeInfo st) (heap st a) k
                    else if k \<in> set preserved_keys \<and> heap st a k \<noteq> None
                    then heap st a k else heap st b k)" for k
          unfolding h3' bn using val [of k] unfolding ha hn .
        have f2: "List.find (\<lambda>x. field st x ''team_id'' = field st a ''team_id'') l = Some b"
          using Some fnd bn by simp
        have wvk: "''webView'' \<in> set preserved_keys" by (simp add: preserved_keys_def)
        show ?thesis
          using all f2 key wvk nos \<open>upd = Some l\<close> by (simp add: field_def get_prop_def)
      qed
    qed
  qed
qed

text \<open>
  Witness for C2. Scenario B of the specification: the registry is \<open>[T1]\<close> with
  webview 0, the update renames \<open>T1\<close>; the new record has webview 0, the old
  initials and the new name. And the same registry with the update
  \<open>[T1 renamed, __signin__]\<close>: the registry and the record of \<open>T1\<close> stay as
  they are, under the old name.
\<close>

theorem mergeTeamList_preserves_webView_witness:
  "teamList (snd (mergeTeamList (Some [2]) registry_T1)) = [2]
   \<and> field (snd (mergeTeamList (Some [2]) registry_T1)) 2 ''webView'' = JWebView 0
   \<and> field (snd (mergeTeamList (Some [2]) registry_T1)) 2 ''initials'' = JStr ''O''
   \<and> field (snd (mergeTeamList (Some [2]) registry_T1)) 2 ''team_name'' = JStr ''Uno''
   \<and> teamList (snd (mergeTeamList (Some [2, 4])
        (registry_T1\<lparr>heap := (heap registry_T1)(4 := signin_team)\<rparr>))) = [1]
   \<and> heap (snd (mergeTeamList (Some [2, 4])
        (registry_T1\<lparr>heap := (heap registry_T1)(4 := signin_team)\<rparr>))) =
       (heap registry_T1)(4 := signin_team)
   \<and> field (snd (mergeTeamList (Some [2, 4])
        (registry_T1\<lparr>heap := (heap registry_T1)(4 := signin_team)\<rparr>))) 1 ''team_name'' = JStr ''One''"
proof -
  have renamed: "teamList (snd (mergeTeamList (Some [2]) registry_T1)) = [2]
     \<and> field (snd (mergeTeamList (Some [2]) registry_T1)) 2 ''webView'' = JWebView 0
     \<and> field (snd (mergeTeamList (Some [2]) registry_T1)) 2 ''initials'' = JStr ''O''
     \<and> field (snd (mergeTeamList (Some [2]) registry_T1)) 2 ''team_name'' = JStr ''Uno''"
  proof -
    let ?st' = "snd (mergeTeamList (Some [2]) registry_T1)"
    have r: "fst (mergeTeamList (Some [2]) registry_T1) = Inr \<lparr>newTeams = [], toDispose = []\<rparr>"
      by (simp add: example_defs)
    have t: "teamList ?st' = [2]"
      by (simp add: example_defs)
    have n: "field ?st' 2 ''team_name'' = JStr ''Uno''"
      by (simp add: example_defs)
    have m: "mergeTeamList (Some [2]) registry_T1 = (Inr \<lparr>newTeams = [], toDispose = []\<rparr>, ?st')"
      using r by (simp add: prod_eq_iff)
    have d: "distinct (team_ids (heap registry_T1) (teamList registry_T1))"
      by (simp add: example_defs)
    have c: "cache_lacks_key (themeInfo registry_T1) ''team_id''"
      by (simp add: registry_T1_def empty_tvc_def cache_lacks_key_def)
    have nofix: "\<And>l. Some [2] = Some l \<Longrightarrow>
         JStr ''__signin__'' \<in> set (team_ids (heap registry_T1) (teamList registry_T1)) \<Longrightarrow>
         l = [] \<or> JStr ''__signin__'' \<in> set (team_ids (heap registry_T1) l)"
      by (simp add: example_defs)
    have a: "1 \<in> set (teamList registry_T1)"
      by (simp add: registry_T1_def)
    have wv: "truthy (field registry_T1 1 ''webView'')"
      by (simp add: example_defs)
    have b: "2 \<in> set (teamList ?st')"
      using t by simp
    have same: "field ?st' 2 ''team_id'' = field registry_T1 1 ''team_id''"
      by (simp add: example_defs)
    have old: "field registry_T1 1 ''webView'' = JWebView 0"
      "field registry_T1 1 ''initials'' = JStr ''O''"
      "heap registry_T1 1 ''initials'' \<noteq> None"
      "fetchThemeInfoAndIconsForTeam (themeInfo registry_T1) (heap registry_T1 1) = Map.empty"
      by (simp_all add: example_defs)
    from mergeTeamList_preserves_webView [OF m d c nofix a wv b same] old t n
    show ?thesis by (simp add: preserved_keys_def)
  qed
  have noise: "heap (snd (mergeTeamList (Some [2, 4]) (registry_T1\<lparr>heap := (heap registry_T1)(4 := signin_team)\<rparr>))) =
       (heap registry_T1)(4 := signin_team)
     \<and> teamList (snd (mergeTeamList (Some [2, 4]) (registry_T1\<lparr>heap := (heap registry_T1)(4 := signin_team)\<rparr>))) = [1]"
  proof -
    let ?R = "registry_T1\<lparr>heap := (heap registry_T1)(4 := signin_team)\<rparr>"
    let ?st' = "snd (mergeTeamList (Some [2, 4]) ?R)"
    have r: "fst (mergeTeamList (Some [2, 4]) ?R) = Inr \<lparr>newTeams = [], toDispose = []\<rparr>"
      by (simp add: example_defs)
    have m: "mergeTeamList (Some [2, 4]) ?R = (Inr \<lparr>newTeams = [], toDispose = []\<rparr>, ?st')"
      using r by (simp add: prod_eq_iff)
    have d: "distinct (team_ids (heap ?R) (teamList ?R))"
      by (simp add: example_defs)
    have c: "cache_lacks_key (themeInfo ?R) ''team_id''"
      by (simp add: registry_T1_def empty_tvc_def cache_lacks_key_def)
    have nofix: "\<And>l. Some [2, 4] = Some l \<Longrightarrow>
         JStr ''__signin__'' \<in> set (team_ids (heap ?R) (teamList ?R)) \<Longrightarrow>
         l = [] \<or> JStr ''__signin__'' \<in> set (team_ids (heap ?R) l)"
      by (simp add: example_defs)
    have a: "1 \<in> set (teamList ?R)"
      by (simp add: registry_T1_def)
    have wv: "truthy (field ?R 1 ''webView'')"
      by (simp add: example_defs)
    have b: "1 \<in> set (teamList ?st')"
      by (simp add: example_defs)
    have same: "field ?st' 1 ''team_id'' = field ?R 1 ''team_id''"
      by (simp add: example_defs)
    have s: "JStr ''__signin__'' \<in> set (team_ids (heap ?R) [2, 4])"
      by (simp add: example_defs)
    from mergeTeamList_preserves_webView [OF m d c nofix a wv b same] s
    have "heap ?st' = heap ?R \<and> teamList ?st' = teamList ?R"
      by blast
    then show ?thesis by (simp add: registry_T1_def)
  qed
  then have "field (snd (mergeTeamList (Some [2, 4])
        (registry_T1\<lparr>heap := (heap registry_T1)(4 := signin_team)\<rparr>))) 1 ''team_name'' = JStr ''One''"
    by (simp add: field_def get_prop_def registry_T1_def team_T1_live_def team_T1_def)
  with renamed noise show ?thesis by simp
qed

text \<open>
  Counterexample to C2 as stated. With cached initials \<open>XX\<close> for \<open>T1\<close>, the
  record of \<open>T1\<close> after the merge has the initials \<open>XX\<close>, not the \<open>O\<close>
  of the old record. And when the registry is \<open>[__signin__, T1]\<close>, the merge of
  \<open>[T1]\<close> leaves \<open>T1\<close> with the webview of the placeholder (9), not its own
  (0).
\<close>

theorem mergeTeamList_preserves_webView_counterexample:
  "truthy (field (registry_T1\<lparr>themeInfo := [''T1'' \<mapsto> [''initials'' \<mapsto> JStr ''XX'']]\<rparr>) 1 ''webView'')
   \<and> teamList (snd (mergeTeamList (Some [2])
        (registry_T1\<lparr>themeInfo := [''T1'' \<mapsto> [''initials'' \<mapsto> JStr ''XX'']]\<rparr>))) = [2]
   \<and> field (snd (mergeTeamList (Some [2])
        (registry_T1\<lparr>themeInfo := [''T1'' \<mapsto> [''initials'' \<mapsto> JStr ''XX'']]\<rparr>))) 2 ''team_id'' = JStr ''T1''
   \<and> field (registry_T1\<lparr>themeInfo := [''T1'' \<mapsto> [''initials'' \<mapsto> JStr ''XX'']]\<rparr>) 1 ''initials'' = JStr ''O''
   \<and> field (snd (mergeTeamList (Some [2])
        (registry_T1\<lparr>themeInfo := [''T1'' \<mapsto> [''initials'' \<mapsto> JStr ''XX'']]\<rparr>))) 2 ''initials'' = JStr ''XX''
   \<and> field (registry_T1\<lparr>heap := (heap registry_T1)(3 := signin_live), teamList := [3, 1]\<rparr>) 1 ''webView'' = JWebView 0
   \<and> teamList (snd (mergeTeamList (Some [2])
        (registry_T1\<lparr>heap := (heap registry_T1)(3 := signin_live), teamList := [3, 1]\<rparr>))) = [2]
   \<and> field (snd (mergeTeamList (Some [2])
        (registry_T1\<lparr>heap := (heap registry_T1)(3 := signin_live), teamList := [3, 1]\<rparr>))) 2 ''team_id'' = JStr ''T1''
   \<and> field (snd (mergeTeamList (Some [2])
        (registry_T1\<lparr>heap := (heap registry_T1)(3 := signin_live), teamList := [3, 1]\<rparr>))) 2 ''webView'' = JWebView 9"
  by (simp add: example_defs)

lemma addNewTeams_key:
  "cache_lacks_key cache k \<Longrightarrow>
   addNewTeams cache upd (h, teams, added) = (h', teams', added') \<Longrightarrow>
   h' x k = h x k \<and> set teams' \<subseteq> set teams \<union> set upd \<and> set teams \<subseteq> set teams'"
proof (induction upd arbitrary: h teams added h' teams' added')
  case Nil
  then show ?case by simp
next
  case (Cons team rest)
  show ?case
  proof (cases "List.find (\<lambda>x. get_prop (h x) ''team_id'' = get_prop (h team) ''team_id'') teams = None")
    case False
    with Cons.prems have "addNewTeams cache rest (h, teams, added) = (h', teams', added')" by simp
    from Cons.IH [OF Cons.prems(1) this] show ?thesis by auto
  next
    case True
    define h1 where "h1 = h(team := lodash_extend (h team) (fetchThemeInfoAndIconsForTeam cache (h team)))"
    have r: "addNewTeams cache rest (h1, teams @ [team], added @ [team]) = (h', teams', added')"
      using Cons.prems(2) True by (simp add: h1_def Let_def)
    have "h1 x k = h x k"
      using Cons.prems(1) by (simp add: h1_def lodash_extend_def map_add_def fetchTheme_lacks)
    with Cons.IH [OF Cons.prems(1) r] show ?thesis by auto
  qed
qed

lemma updateExistingTeams_all_found:
  "cache_lacks_key cache ''shouldDelete'' \<Longrightarrow>
   updateExistingTeams cache upd items h = (items', h') \<Longrightarrow>
   set items \<subseteq> set upd \<Longrightarrow>
   h' x ''shouldDelete'' = h x ''shouldDelete'' \<and> set items' \<subseteq> set upd"
proof (induction items arbitrary: h items' h')
  case Nil
  then show ?case by simp
next
  case (Cons item rest)
  have "item \<in> set upd" using Cons.prems(3) by simp
  then have "List.find (\<lambda>x. get_prop (h x) ''team_id'' = get_prop (h item) ''team_id'') upd \<noteq> None"
    by (auto simp: find_None_iff)
  then obtain newTeam where Some:
    "List.find (\<lambda>x. get_prop (h x) ''team_id'' = get_prop (h item) ''team_id'') upd = Some newTeam"
    by auto
  define h1 where "h1 = h(newTeam := lodash_extend (h newTeam)
                    (lodash_pick (h item) [''webView'', ''webViewLoaded'', ''icons'', ''initials'']))"
  define h2 where "h2 = h1(newTeam := lodash_extend (h1 newTeam)
                    (fetchThemeInfoAndIconsForTeam cache (h1 newTeam)))"
  obtain rest' h3 where r: "updateExistingTeams cache upd rest h2 = (rest', h3)"
    by (cases "updateExistingTeams cache upd rest h2") auto
  have res: "items' = newTeam # rest'" "h' = h3"
    using Cons.prems(2) Some r by (simp_all add: h1_def h2_def Let_def)
  have nu: "newTeam \<in> set upd"
    using Some by (auto dest: find_Some_set)
  have "h1 x ''shouldDelete'' = h x ''shouldDelete''"
    by (simp add: h1_def lodash_extend_def lodash_pick_def map_add_def restrict_map_def)
  moreover have "h2 x ''shouldDelete'' = h1 x ''shouldDelete''"
    using Cons.prems(1) by (simp add: h2_def lodash_extend_def map_add_def fetchTheme_lacks)
  moreover have "set rest \<subseteq> set upd" using Cons.prems(3) by simp
  note Cons.IH [OF Cons.prems(1) r this]
  ultimately show ?case using res nu by simp
qed

lemma removeDeleted_none:
  "(\<And>t. t \<in> set items \<Longrightarrow> \<not> truthy (get_prop (h t) ''shouldDelete'')) \<Longrightarrow>
   removeDeleted h items = (items, [])"
  by (induction items) auto


lemma addNewTeams_append:
  "addNewTeams cache upd (h, teams, added) = (h', teams', added') \<Longrightarrow>
   \<exists>new. teams' = teams @ new \<and> added' = added @ new"
proof (induction upd arbitrary: h teams added h' teams' added')
  case Nil
  then show ?case by simp
next
  case (Cons team rest)
  show ?case
  proof (cases "List.find (\<lambda>x. get_prop (h x) ''team_id'' = get_prop (h team) ''team_id'') teams = None")
    case False
    with Cons.prems have "addNewTeams cache rest (h, teams, added) = (h', teams', added')" by simp
    from Cons.IH [OF this] show ?thesis .
  next
    case True
    define h1 where "h1 = h(team := lodash_extend (h team) (fetchThemeInfoAndIconsForTeam cache (h team)))"
    have r: "addNewTeams cache rest (h1, teams @ [team], added @ [team]) = (h', teams', added')"
      using Cons.prems True by (simp add: h1_def Let_def)
    from Cons.IH [OF r] show ?thesis by auto
  qed
qed

text \<open>
  Claim C4, amended. The registry holds exactly one team, the \<open>__signin__\<close>
  placeholder \<open>p\<close>; the incoming list is not empty and none of its entries has the
  \<open>team_id\<close> \<open>__signin__\<close> or carries a \<open>shouldDelete\<close> mark; the theme
  cache holds no \<open>team_id\<close> or \<open>shouldDelete\<close> property. Then
  \<open>mergeTeamList\<close> returns normally with nothing to dispose, the registry starts
  with the first incoming entry and holds no placeholder any more, and each property of
  that first entry is the placeholder's if it is one of \<open>webView\<close>,
  \<open>webViewLoaded\<close>, \<open>icons\<close>, \<open>initials\<close> and the placeholder has it,
  otherwise the incoming one, unless the theme cache holds the property for the new team.
  In particular the record has the placeholder's webview.
\<close>

theorem mergeTeamList_placeholder_fixup:
  assumes reg: "teamList st = [p]"
    and pid: "field st p ''team_id'' = JStr ''__signin__''"
    and nos: "JStr ''__signin__'' \<notin> set (team_ids (heap st) (first # others))"
    and c: "cache_lacks_key (themeInfo st) ''team_id''"
    and cd: "cache_lacks_key (themeInfo st) ''shouldDelete''"
    and flags: "list_all (\<lambda>u. \<not> truthy (field st u ''shouldDelete'')) (first # others)"
  shows "(\<exists>added. fst (mergeTeamList (Some (first # others)) st) =
                    Inr \<lparr>newTeams = added, toDispose = []\<rparr>)
       \<and> hd (teamList (snd (mergeTeamList (Some (first # others)) st))) = first
       \<and> teamList (snd (mergeTeamList (Some (first # others)) st)) \<noteq> []
       \<and> JStr ''__signin__'' \<notin> set (team_ids (heap (snd (mergeTeamList (Some (first # others)) st)))
                                     (teamList (snd (mergeTeamList (Some (first # others)) st))))
       \<and> (\<forall>k. heap (snd (mergeTeamList (Some (first # others)) st)) first k =
             (if fetchThemeInfoAndIconsForTeam (themeInfo st) (heap st first) k \<noteq> None
              then fetchThemeInfoAndIconsForTeam (themeInfo st) (heap st first) k
              else if k \<in> set preserved_keys \<and> heap st p k \<noteq> None
              then heap st p k else heap st first k))"
proof -
  let ?l = "first # others"
  let ?cache = "themeInfo st"
  have ne: "teamList st \<noteq> []" using reg by simp
  have nosignin: "List.find (\<lambda>x. field st x ''team_id'' = JStr ''__signin__'') ?l = None"
    unfolding field_def find_None_iff_ids using nos .
  define h1 where "h1 = (heap st)(first := lodash_extend (heap st first)
                  (lodash_pick (heap st p) [''webView'', ''webViewLoaded'', ''icons'', ''initials'']))"
  have f: "fixupSigninTeam ?l st = (h1, [first])"
    using reg pid by (simp add: fixupSigninTeam_def h1_def)
  obtain h2 tl2 added where ad: "addNewTeams ?cache ?l (h1, [first], []) = (h2, tl2, added)"
    by (cases "addNewTeams ?cache ?l (h1, [first], [])") auto
  obtain tl3 h3 where u: "updateExistingTeams ?cache ?l tl2 h2 = (tl3, h3)"
    by (cases "updateExistingTeams ?cache ?l tl2 h2") auto
  note mp = mergeTeamList_main_path [OF ne nosignin f ad u]
  have s01: "same_ids (heap st) h1"
    unfolding h1_def by (rule same_ids_extend_pick) simp
  have s12: "same_ids h1 h2"
    using addNewTeams_same_ids [OF c ad] .
  have s23: "same_ids h2 h3" and ids3: "team_ids h3 tl3 = team_ids h2 tl2"
    using updateExistingTeams_same_ids [OF c u] by simp_all
  have s02: "same_ids (heap st) h2"
    using s01 s12 by (rule same_ids_trans)
  have s03: "same_ids (heap st) h3"
    using s02 s23 by (rule same_ids_trans)
  \<comment> \<open>after step 2 the list starts with the first incoming team and holds incoming teams only\<close>
  have sub2: "set tl2 \<subseteq> set ?l"
    using addNewTeams_key [OF c ad, of first] by auto
  obtain rest2 where tl2: "tl2 = first # rest2"
    using addNewTeams_append [OF ad] by auto
  have d2: "distinct (team_ids h2 tl2)"
    using addNewTeams_distinct [OF c ad] by (simp add: team_ids_def)
  have h2first: "h2 first = h1 first"
    using addNewTeams_frame [OF c ad, of first] by (simp add: team_ids_def)
  \<comment> \<open>step 3 marks nothing: every entry is an incoming team\<close>
  have sd3: "h3 x ''shouldDelete'' = h2 x ''shouldDelete''" and sub3: "set tl3 \<subseteq> set ?l" for x
    using updateExistingTeams_all_found [OF cd u sub2] by simp_all
  have sd2: "h2 x ''shouldDelete'' = h1 x ''shouldDelete''" for x
    using addNewTeams_key [OF cd ad] by simp
  have sd1: "h1 x ''shouldDelete'' = heap st x ''shouldDelete''" for x
    by (simp add: h1_def lodash_extend_def lodash_pick_def map_add_def restrict_map_def)
  have keep: "\<not> truthy (get_prop (h3 t) ''shouldDelete'')" if "t \<in> set tl3" for t
  proof -
    from that sub3 have "t \<in> set ?l" by auto
    with flags have "\<not> truthy (field st t ''shouldDelete'')"
      unfolding list_all_iff by blast
    then show ?thesis
      by (simp add: field_def get_prop_def sd3 sd2 sd1)
  qed
  have rd: "removeDeleted h3 tl3 = (tl3, [])"
    using keep by (rule removeDeleted_none)
  have result: "mergeTeamList (Some ?l) st =
      (Inr \<lparr>newTeams = added, toDispose = []\<rparr>, st\<lparr>heap := h3, teamList := tl3\<rparr>)"
    using mp rd by simp
  \<comment> \<open>the head of the list after step 3 is the first incoming team\<close>
  have len: "tl3 \<noteq> []"
    using ids3 tl2 by (auto simp: team_ids_def)
  have hd_id: "get_prop (h3 (hd tl3)) ''team_id'' = get_prop (h2 first) ''team_id''"
    using ids3 tl2 len by (cases tl3) (simp_all add: team_ids_def)
  have "entry_after ?cache ?l h2 h3 first (hd tl3)"
    using len tl2 by (intro updateExistingTeams_entry [OF c d2 u _ _ hd_id]) simp_all
  moreover have "List.find (\<lambda>x. get_prop (h2 x) ''team_id'' = get_prop (h2 first) ''team_id'') ?l = Some first"
    by simp
  ultimately have hd3: "hd tl3 = first"
    and val: "\<And>k. h3 first k =
                (if fetchThemeInfoAndIconsForTeam ?cache (h2 first) k \<noteq> None
                 then fetchThemeInfoAndIconsForTeam ?cache (h2 first) k
                 else if k \<in> set preserved_keys \<and> h2 first k \<noteq> None
                 then h2 first k else h2 first k)"
    by (simp_all add: entry_after_def)
  have th: "fetchThemeInfoAndIconsForTeam ?cache (h1 first) =
            fetchThemeInfoAndIconsForTeam ?cache (heap st first)"
    using s01 by (intro fetchTheme_cong) (simp add: same_ids_def)
  have h1k: "h1 first k = (if k \<in> set preserved_keys \<and> heap st p k \<noteq> None
                           then heap st p k else heap st first k)" for k
    by (cases "heap st p k")
       (simp_all add: h1_def pick_preserved lodash_extend_def map_add_def restrict_map_def)
  have vals: "h3 first k =
             (if fetchThemeInfoAndIconsForTeam ?cache (heap st first) k \<noteq> None
              then fetchThemeInfoAndIconsForTeam ?cache (heap st first) k
              else if k \<in> set preserved_keys \<and> heap st p k \<noteq> None
              then heap st p k else heap st first k)" for k
  proof -
    have "h3 first k =
             (if fetchThemeInfoAndIconsForTeam ?cache (heap st first) k \<noteq> None
              then fetchThemeInfoAndIconsForTeam ?cache (heap st first) k
              else h1 first k)"
      using val [of k] unfolding h2first th by (simp split: if_splits)
    then show ?thesis unfolding h1k .
  qed
  have nosig3: "JStr ''__signin__'' \<notin> set (team_ids h3 tl3)"
  proof
    assume "JStr ''__signin__'' \<in> set (team_ids h3 tl3)"
    then obtain t where "t \<in> set tl3" "get_prop (h3 t) ''team_id'' = JStr ''__signin__''"
      by (auto simp: team_ids_def)
    with sub3 s03 have "t \<in> set ?l" "get_prop (heap st t) ''team_id'' = JStr ''__signin__''"
      by (auto simp: same_ids_def)
    with nos show False by (force simp: team_ids_def)
  qed
  show ?thesis
    unfolding result using hd3 len nosig3 vals by simp
qed

text \<open>
  Witness for C4 (scenario D of the specification): registry \<open>[__signin__]\<close> with
  webview 9, incoming \<open>[T1]\<close>; the registry becomes \<open>[T1]\<close> with webview 9.
\<close>

theorem mergeTeamList_placeholder_fixup_witness:
  "teamList (snd (mergeTeamList (Some [2]) registry_signin)) = [2]
   \<and> fst (mergeTeamList (Some [2]) registry_signin) = Inr \<lparr>newTeams = [], toDispose = []\<rparr>
   \<and> field (snd (mergeTeamList (Some [2]) registry_signin)) 2 ''webView'' = JWebView 9
   \<and> field (snd (mergeTeamList (Some [2]) registry_signin)) 2 ''team_id'' = JStr ''T1''"
proof -
  have reg: "teamList registry_signin = [3]"
    by (simp add: registry_signin_def)
  have pid: "field registry_signin 3 ''team_id'' = JStr ''__signin__''"
    by (simp add: example_defs)
  have nos: "JStr ''__signin__'' \<notin> set (team_ids (heap registry_signin) (2 # []))"
    by (simp add: example_defs)
  have c: "cache_lacks_key (themeInfo registry_signin) ''team_id''"
    and cd: "cache_lacks_key (themeInfo registry_signin) ''shouldDelete''"
    by (simp_all add: registry_signin_def empty_tvc_def cache_lacks_key_def)
  have flags: "list_all (\<lambda>u. \<not> truthy (field registry_signin u ''shouldDelete'')) (2 # [])"
    by (simp add: example_defs)
  have old: "heap registry_signin 3 ''webView'' = Some (JWebView 9)"
    "heap registry_signin 2 ''team_id'' = Some (JStr ''T1'')"
    "fetchThemeInfoAndIconsForTeam (themeInfo registry_signin) (heap registry_signin 2) = Map.empty"
    by (simp_all add: example_defs)
  have r: "fst (mergeTeamList (Some [2]) registry_signin) = Inr \<lparr>newTeams = [], toDispose = []\<rparr>"
    "teamList (snd (mergeTeamList (Some [2]) registry_signin)) = [2]"
    by (simp_all add: example_defs)
  from mergeTeamList_placeholder_fixup [OF reg pid nos c cd flags] old r
  show ?thesis by (simp add: preserved_keys_def field_def get_prop_def)
qed

text \<open>
  Counterexample to C4 as stated: the registry is the placeholder alone and the incoming
  list \<open>[T1, __signin__]\<close> is not empty, yet the placeholder is not replaced. Step 0
  of \<open>mergeTeamList\<close> sees the \<open>__signin__\<close> entry, asks the placeholder's
  webview to refresh the teams and leaves the registry as it is.
\<close>

theorem mergeTeamList_placeholder_fixup_counterexample:
  "teamList registry_signin = [3]
   \<and> field registry_signin 3 ''team_id'' = JStr ''__signin__''
   \<and> teamList (snd (mergeTeamList (Some [2, 4]) registry_signin)) = [3]
   \<and> heap (snd (mergeTeamList (Some [2, 4]) registry_signin)) = heap registry_signin
   \<and> effects (snd (mergeTeamList (Some [2, 4]) registry_signin)) = [WebView_refreshTeams 9]"
  by (simp add: example_defs)

section \<open>Properties of shouldMergeTeamList and the reconciliation\<close>























section \<open>Properties of updateBadgeInfoForTeam\<close>


lemma sortable_ge: "- 1 \<le> sortable s"
  by (cases s) simp_all




lemma emit_fields:
  "heap (emit e st) = heap st" "primaryTeam (emit e st) = primaryTeam st"
  "teamList (emit e st) = teamList st" "effects (emit e st) = effects st @ [e]"
  "field (emit e st) = field st"
  by (simp_all add: emit_def field_def fun_eq_iff)










section \<open>Properties of makeTeamPrimary\<close>

lemma call_webview_fields:
  "call_webview v method st = (r, st') \<Longrightarrow>
   heap st' = heap st \<and> primaryTeam st' = primaryTeam st"
  by (auto simp: call_webview_def emit_def split: jsval.splits)

lemma setPrimaryTeamDisp_fields:
  "setPrimaryTeamDisp d st = (r, st') \<Longrightarrow>
   heap st' = heap st \<and> primaryTeam st' = primaryTeam st"
  by (auto simp: setPrimaryTeamDisp_def call_webview_def emit_def Let_def
           split: option.splits prod.splits if_splits jsval.splits)

lemma badgeLoop_fields:
  "badgeLoop updateAll ts acc st = (r, st') \<Longrightarrow>
   heap st' = heap st \<and> primaryTeam st' = primaryTeam st"
proof (induction ts arbitrary: acc st)
  case Nil
  then show ?case by simp
next
  case (Cons t ts)
  obtain a b c where acc: "acc = (a, b, c)" by (cases acc) auto
  show ?case
  proof (cases "updateAll \<and> primaryTeam st \<noteq> None")
    case True
    then obtain p where p: "primaryTeam st = Some p" by auto
    from Cons.prems True p obtain acc' where
      "badgeLoop updateAll ts acc'
         (emit (TeamSelector_setSelectionStatus t
                  (field st t ''team_id'' = field st p ''team_id'')) st) = (r, st')"
      unfolding acc by (auto simp: Let_def)
    from Cons.IH [OF this] show ?thesis by (simp add: emit_fields)
  next
    case False
    show ?thesis
    proof (cases updateAll)
      case True
      with False Cons.prems show ?thesis unfolding acc by (auto simp: Let_def)
    next
      case nu: False
      from Cons.prems nu obtain acc' where "badgeLoop updateAll ts acc' st = (r, st')"
        unfolding acc by (auto simp: Let_def)
      from Cons.IH [OF this] show ?thesis .
    qed
  qed
qed

lemma updateBadgeInfoForTeam_null_fields:
  assumes "updateBadgeInfoForTeam team JNull updateAll st = (r, st')"
  shows "heap st' = heap st \<and> primaryTeam st' = primaryTeam st"
proof (cases team)
  case None
  with assms show ?thesis by (simp add: updateBadgeInfoForTeam_def)
next
  case (Some t)
  show ?thesis
  proof (cases "truthy (field st t ''team_id'')")
    case False
    with assms Some show ?thesis by (simp add: updateBadgeInfoForTeam_def)
  next
    case tid: True
    show ?thesis
    proof (cases "List.find (\<lambda>x. field st x ''team_id'' = field st t ''team_id'') (teamList st)")
      case None
      with assms Some tid show ?thesis by (simp add: updateBadgeInfoForTeam_def)
    next
      case (Some found)
      obtain r2 st2 where l: "badgeLoop updateAll (teamList st) (Finite 0, Finite 0, - 1) st = (r2, st2)"
        by (cases "badgeLoop updateAll (teamList st) (Finite 0, Finite 0, - 1) st") auto
      note k = badgeLoop_fields [OF l]
      have "updateBadgeInfoForTeam team JNull updateAll st =
            (case (r2, st2) of
               (Inl e, st2) \<Rightarrow> (Inl e, st2)
             | (Inr (unreadSum, unreadHighlightsSum, worstStatus), st2) \<Rightarrow>
                 (case (if \<not> updateAll
                        then (case primaryTeam st2 of
                                None \<Rightarrow> Inl TypeError
                              | Some p \<Rightarrow>
                                  Inr (emit (TeamSelector_setSelectionStatus found
                                         (field st2 found ''team_id'' = field st2 p ''team_id'')) st2))
                        else Inr st2) of
                    Inl e \<Rightarrow> (Inl e, st2)
                  | Inr st3 \<Rightarrow>
                      (Inr (),
                       emit (BadgeManager_setGlobalBadgeCount unreadHighlightsSum unreadSum
                               (realConnectionStatus worstStatus)) st3)))"
        using \<open>team = Some t\<close> tid Some l by (simp add: updateBadgeInfoForTeam_def)
      with assms k show ?thesis
        by (auto simp: emit_fields split: sum.splits option.splits if_splits)
    qed
  qed
qed

lemma makeTeamPrimary_switch:
  assumes m: "makeTeamPrimary (Some t) st = (Inr r, st1)"
    and other: "\<not> (case primaryTeam st of None \<Rightarrow> False
                | Some p \<Rightarrow> field st t ''team_id'' = field st p ''team_id'')"
  shows "heap st1 = heap st \<and> primaryTeam st1 = Some t"
proof -
  obtain w where w: "field st t ''webView'' = JWebView w"
    using m other
    by (auto simp: makeTeamPrimary_def Let_def emit_fields split: jsval.splits option.splits)
  define s5 where "s5 = (emit (Subscribe_crashed w (field st t ''team_url''))
      (emit (Subscribe_windowFocus t)
        (emit (SendToBrowser ''teams:team-changed'' [field st t ''team_name'', webViewId (JWebView w)])
           (emit LoadingScreen_hideAll st))))\<lparr>primaryTeam := Some t\<rparr>"
  obtain r6 s6 where d: "setPrimaryTeamDisp (Some (t, w)) s5 = (r6, s6)"
    by (cases "setPrimaryTeamDisp (Some (t, w)) s5") auto
  obtain r7 s7 where c: "call_webview (field s6 t ''webView'') WebView_show s6 = (r7, s7)"
    by (cases "call_webview (field s6 t ''webView'') WebView_show s6") auto
  obtain r8 s8 where b: "updateBadgeInfoForTeam (primaryTeam s7) JNull True s7 = (r8, s8)"
    by (cases "updateBadgeInfoForTeam (primaryTeam s7) JNull True s7") auto
  have k5: "heap s5 = heap st" "primaryTeam s5 = Some t"
    by (simp_all add: s5_def emit_def)
  note k6 = setPrimaryTeamDisp_fields [OF d]
  note k7 = call_webview_fields [OF c]
  note k8 = updateBadgeInfoForTeam_null_fields [OF b]
  have "makeTeamPrimary (Some t) st =
        (case r6 of Inl e \<Rightarrow> (Inl e, s6)
         | Inr u \<Rightarrow> (case r7 of Inl e \<Rightarrow> (Inl e, s7)
            | Inr u \<Rightarrow> (case r8 of Inl e \<Rightarrow> (Inl e, s8)
               | Inr u \<Rightarrow> (Inr ReturnedDisposable, emit LoadDisposable_dispose s8))))"
    using other w d c b
    by (simp add: makeTeamPrimary_def Let_def emit_fields s5_def [symmetric]
             split: option.splits sum.splits)
  with m show ?thesis
    using k5 k6 k7 k8 by (auto simp: emit_fields split: sum.splits)
qed

text \<open>
  Claim C6, amended. When the team passed to \<open>makeTeamPrimary\<close> has the
  \<open>team_id\<close> of the primary team, the call hides the loading screen and returns the
  team: that one effect apart, the state is what it was. And whenever a call for a team
  returns normally, a second call for the same team right after it does exactly that: it
  adds \<open>hideAll\<close> and nothing else, so the two calls send one
  \<open>teams:team-changed\<close>, show the webview once and subscribe once to
  \<open>windowFocus\<close> and to the crash signal.
\<close>

theorem makeTeamPrimary_idempotent:
  shows "(primaryTeam st = Some p \<and> field st t ''team_id'' = field st p ''team_id'' \<longrightarrow>
            makeTeamPrimary (Some t) st = (Inr (ReturnedTeam t), emit LoadingScreen_hideAll st))
       \<and> (makeTeamPrimary (Some t) st = (Inr r, st1) \<longrightarrow>
            makeTeamPrimary (Some t) st1 = (Inr (ReturnedTeam t), emit LoadingScreen_hideAll st1))"
proof -
  have already: "makeTeamPrimary (Some t) s = (Inr (ReturnedTeam t), emit LoadingScreen_hideAll s)"
    if "primaryTeam s = Some p" "field s t ''team_id'' = field s p ''team_id''" for s p
    using that by (simp add: makeTeamPrimary_def Let_def emit_fields)
  have second: "makeTeamPrimary (Some t) st1 = (Inr (ReturnedTeam t), emit LoadingScreen_hideAll st1)"
    if m: "makeTeamPrimary (Some t) st = (Inr r, st1)"
  proof (cases "case primaryTeam st of None \<Rightarrow> False
                | Some p \<Rightarrow> field st t ''team_id'' = field st p ''team_id''")
    case True
    then obtain p where p: "primaryTeam st = Some p" "field st t ''team_id'' = field st p ''team_id''"
      by (auto split: option.splits)
    from already [OF p] m have "st1 = emit LoadingScreen_hideAll st" by simp
    with p show ?thesis by (intro already [of _ p]) (simp_all add: emit_fields)
  next
    case False
    from makeTeamPrimary_switch [OF m False] show ?thesis
      by (intro already [of _ t]) simp_all
  qed
  from already second show ?thesis by blast
qed

lemmas primary_example_defs = example_defs makeTeamPrimary_def setPrimaryTeamDisp_def updateBadgeInfoForTeam_def
  webViewId_def js_to_number_def to_double_def round_to_double_def badge_prop_def realConnectionStatus_def
  sortableConnectionStatusToName_def sortableConnectionStatus_def nat_to_string.simps
  digit_char_def

lemma first_makeTeamPrimary:
  "fst (makeTeamPrimary (Some 1) registry_T1) = Inr ReturnedDisposable"
  "effects (snd (makeTeamPrimary (Some 1) registry_T1)) =
     [LoadingScreen_hideAll,
      SendToBrowser ''teams:team-changed'' [JStr ''One'', JStr ''webView0''],
      Subscribe_windowFocus 1,
      Subscribe_crashed 0 JUndefined,
      WebView_show 0,
      TeamSelector_setSelectionStatus 1 True,
      BadgeManager_setGlobalBadgeCount (Finite 0) (Finite 0) ''online'',
      LoadDisposable_dispose]"
  by (simp_all add: primary_example_defs)

text \<open>
  Witness for C6: in the controller with the one team \<open>T1\<close> (webview 0) and no
  primary team, \<open>makeTeamPrimary\<close> is called twice for \<open>T1\<close>. The effects of
  both calls together are those of the first call followed by one \<open>hideAll\<close>.
\<close>

theorem makeTeamPrimary_idempotent_witness:
  "effects (snd (makeTeamPrimary (Some 1) (snd (makeTeamPrimary (Some 1) registry_T1)))) =
     [LoadingScreen_hideAll,
      SendToBrowser ''teams:team-changed'' [JStr ''One'', JStr ''webView0''],
      Subscribe_windowFocus 1,
      Subscribe_crashed 0 JUndefined,
      WebView_show 0,
      TeamSelector_setSelectionStatus 1 True,
      BadgeManager_setGlobalBadgeCount (Finite 0) (Finite 0) ''online'',
      LoadDisposable_dispose,
      LoadingScreen_hideAll]"
proof -
  have m: "makeTeamPrimary (Some 1) registry_T1 =
           (Inr ReturnedDisposable, snd (makeTeamPrimary (Some 1) registry_T1))"
    using first_makeTeamPrimary(1) by (simp add: prod_eq_iff)
  from makeTeamPrimary_idempotent [where t = 1 and st = registry_T1 and r = ReturnedDisposable
         and ?st1.0 = "snd (makeTeamPrimary (Some 1) registry_T1)"] m
  have "makeTeamPrimary (Some 1) (snd (makeTeamPrimary (Some 1) registry_T1)) =
        (Inr (ReturnedTeam 1), emit LoadingScreen_hideAll (snd (makeTeamPrimary (Some 1) registry_T1)))"
    by blast
  then show ?thesis
    using first_makeTeamPrimary(2) by (simp add: emit_fields)
qed

text \<open>
  Counterexample to C6 as stated: team 1 is primary and nothing has happened yet; the
  call of \<open>makeTeamPrimary\<close> for team 1 is not free of side effects, it calls
  \<open>loadingScreen.hideAll()\<close>.
\<close>

theorem makeTeamPrimary_idempotent_counterexample:
  "primaryTeam two_badges = Some 1
   \<and> effects two_badges = []
   \<and> effects (snd (makeTeamPrimary (Some 1) two_badges)) = [LoadingScreen_hideAll]"
  by (simp add: two_badges_def primary_example_defs)

section \<open>Properties of the network status state machine\<close>

text \<open>
  Claim C7. When the status observable yields a status that is not online, the subscriber
  clears the primary team with \<open>makeTeamPrimary(null)\<close> and then shows the offline
  screen, whatever the browser reports and whatever the reason of the probe is: the
  condition compares the method \<open>networkStatus.reason\<close>, not the value of the call
  \<open>networkStatus.reason()\<close>, with \<open>'slackDown'\<close>, so the branch that shows the
  "slack is down" screen is never taken. When the observable yields online, the
  subscriber is \<open>presentAvailableTeams()\<close>. In the state \<open>slack_is_down\<close> the
  browser is online and the reason is \<open>slackDown\<close>, and the screen shown is the
  offline one.
\<close>

theorem onNetworkStatus_slackDown_shows_offline:
  "onNetworkStatus True st = presentAvailableTeams None st
   \<and> onNetworkStatus False st =
       (case makeTeamPrimary None st of
          (Inl e, st1) \<Rightarrow> (Inl e, st1)
        | (Inr r, st1) \<Rightarrow> (Inr (), emit LoadingScreen_showOffline st1))
   \<and> browserIsOnline (networkStatus slack_is_down)
   \<and> reason (networkStatus slack_is_down) = JStr ''slackDown''
   \<and> onNetworkStatus False slack_is_down =
       (Inr (),
        slack_is_down\<lparr>effects :=
          [LoadingScreen_showTrying, SendToBrowser ''teams:team-changed'' [],
           LoadingScreen_showOffline]\<rparr>)"
proof -
  have "onNetworkStatus True st = presentAvailableTeams None st"
    by (simp add: onNetworkStatus_def)
  moreover have "onNetworkStatus False st =
       (case makeTeamPrimary None st of
          (Inl e, st1) \<Rightarrow> (Inl e, st1)
        | (Inr r, st1) \<Rightarrow> (Inr (), emit LoadingScreen_showOffline st1))"
    by (simp add: onNetworkStatus_def reason_member_def split: prod.splits sum.splits)
  moreover have "browserIsOnline (networkStatus slack_is_down)
      \<and> reason (networkStatus slack_is_down) = JStr ''slackDown''"
    by (simp add: slack_is_down_def browserIsOnline_def reason_def)
  moreover have "onNetworkStatus False slack_is_down =
       (Inr (),
        slack_is_down\<lparr>effects :=
          [LoadingScreen_showTrying, SendToBrowser ''teams:team-changed'' [],
           LoadingScreen_showOffline]\<rparr>)"
    by (simp add: slack_is_down_def onNetworkStatus_def browserIsOnline_def reason_member_def
          primary_example_defs)
  ultimately show ?thesis by blast
qed

section \<open>Properties of executeJavaScript\<close>

text \<open>
  Claim C8. The promise \<open>executeJavaScript\<close> returns never rejects: the
  \<open>.catch(() => rx.Observable.return(null))\<close> at the end of the chain turns every
  error into \<open>null\<close>, not only the one of the timeout. A reply with the correlation
  id of the request that carries an error, arriving 5 ms after the request, resolves
  the promise to \<open>null\<close> at that time.
\<close>

theorem executeJavaScript_error_reply_resolves_null:
  "snd (executeJavaScript hasWebView msgId json_parse messages) \<noteq> Rejected e
   \<and> executeJavaScript True ''4f1d'' json_parse
       [(5, \<lparr>channel = ''eval-async'',
              args = [\<lparr>reply_id = ''4f1d'', reply_result = None,
                       reply_error = Some (''boom'', ''at eval'')\<rparr>]\<rparr>)] =
     (5, Resolved None)"
proof -
  have "snd (executeJavaScript hasWebView msgId json_parse messages) \<noteq> Rejected e"
    by (auto simp: executeJavaScript_def catch_return_null_def
          split: prod.splits outcome.splits)
  moreover have "executeJavaScript True ''4f1d'' json_parse
       [(5, \<lparr>channel = ''eval-async'',
              args = [\<lparr>reply_id = ''4f1d'', reply_result = None,
                       reply_error = Some (''boom'', ''at eval'')\<rparr>]\<rparr>)] =
     (5, Resolved None)"
    by (simp add: executeJavaScript_def firstReply_def isReplyTo_def replyToObservable_def
          timeout_after_def catch_return_null_def)
  ultimately show ?thesis by blast
qed

section \<open>Properties of handleWebViewCrash\<close>

lemma plugin_startsWith: "startsWith (crash_type (PluginCrashed n v)) ''Plugin''"
  by (simp add: startsWith_def)

text \<open>
  Claim C9, amended. A plugin crash is ignored, as is every crash whose type starts with
  \<open>Plugin\<close>. For any other type, the handler sends \<open>window:reload\<close> at once when
  the team's URL is not \<open>https://tinyspeck.slack.com/\<close>; for that URL it shows a
  dialog instead and sends nothing. When the dialog is answered with the second button
  (\<open>View Logs\<close>), the log folder is opened and then \<open>window:reload\<close> is sent;
  with any other answer \<open>window:reload\<close> alone is sent. The types of a renderer
  crash, a GPU crash and a load timeout do not start with \<open>Plugin\<close>.
\<close>

theorem handleWebViewCrash_reload:
  "handleWebViewCrash (crash_type (PluginCrashed n v)) teamUrl = []
   \<and> (startsWith type ''Plugin'' \<longrightarrow> handleWebViewCrash type teamUrl = [])
   \<and> (\<not> startsWith type ''Plugin'' \<and> teamUrl \<noteq> JStr ''https://tinyspeck.slack.com/'' \<longrightarrow>
        handleWebViewCrash type teamUrl = [SendToBrowser ''window:reload'' []])
   \<and> (\<not> startsWith type ''Plugin'' \<and> teamUrl = JStr ''https://tinyspeck.slack.com/'' \<longrightarrow>
        handleWebViewCrash type teamUrl = [Dialog_showMessageBox type])
   \<and> crashDialogAnswered 1 = [Shell_openItem_logs, SendToBrowser ''window:reload'' []]
   \<and> (response \<noteq> 1 \<longrightarrow> crashDialogAnswered response = [SendToBrowser ''window:reload'' []])
   \<and> \<not> startsWith (crash_type Crashed) ''Plugin''
   \<and> \<not> startsWith (crash_type GpuCrashed) ''Plugin''
   \<and> \<not> startsWith (crash_type SsbLoadTimeout) ''Plugin''"
  using plugin_startsWith [of n v]
  by (simp add: handleWebViewCrash_def crashDialogAnswered_def) (simp add: startsWith_def)

text \<open>
  Witness for C9: a GPU crash in a team at \<open>https://acme.slack.com/\<close> reloads the
  window at once; a load timeout in the team at \<open>https://tinyspeck.slack.com/\<close>
  shows the dialog, and the answer \<open>Reload\<close> (button 0) reloads the window; a
  crash of type \<open>Plugin Flash 11\<close> does nothing.
\<close>

theorem handleWebViewCrash_reload_witness:
  "handleWebViewCrash (crash_type GpuCrashed) (JStr ''https://acme.slack.com/'') =
     [SendToBrowser ''window:reload'' []]
   \<and> handleWebViewCrash (crash_type SsbLoadTimeout) (JStr ''https://tinyspeck.slack.com/'') =
       [Dialog_showMessageBox ''Load timeout'']
   \<and> crashDialogAnswered 0 = [SendToBrowser ''window:reload'' []]
   \<and> handleWebViewCrash ''Plugin Flash 11'' (JStr ''https://acme.slack.com/'') = []"
proof -
  have g: "\<not> startsWith (crash_type GpuCrashed) ''Plugin''
        \<and> JStr ''https://acme.slack.com/'' \<noteq> JStr ''https://tinyspeck.slack.com/''"
    by (simp add: startsWith_def)
  have t: "\<not> startsWith (crash_type SsbLoadTimeout) ''Plugin'' \<and> (0::int) \<noteq> 1"
    by (simp add: startsWith_def)
  have p: "startsWith ''Plugin Flash 11'' ''Plugin''"
    by (simp add: startsWith_def)
  from handleWebViewCrash_reload [of _ _ "JStr ''https://acme.slack.com/''" "crash_type GpuCrashed"] g
  have 1: "handleWebViewCrash (crash_type GpuCrashed) (JStr ''https://acme.slack.com/'') =
     [SendToBrowser ''window:reload'' []]"
    by blast
  from handleWebViewCrash_reload [of _ _ "JStr ''https://tinyspeck.slack.com/''"
         "crash_type SsbLoadTimeout" 0] t
  have 2: "handleWebViewCrash (crash_type SsbLoadTimeout) (JStr ''https://tinyspeck.slack.com/'') =
       [Dialog_showMessageBox (crash_type SsbLoadTimeout)]
     \<and> crashDialogAnswered 0 = [SendToBrowser ''window:reload'' []]"
    by blast
  from handleWebViewCrash_reload [of _ _ "JStr ''https://acme.slack.com/''" "''Plugin Flash 11''"] p
  have 3: "handleWebViewCrash ''Plugin Flash 11'' (JStr ''https://acme.slack.com/'') = []"
    by blast
  from 1 2 3 show ?thesis by simp
qed

text \<open>
  Counterexample to C9 as stated: a renderer crash in the team at
  \<open>https://tinyspeck.slack.com/\<close> is not a plugin crash, and the handler issues no
  reload; it shows a dialog.
\<close>

theorem handleWebViewCrash_reload_counterexample:
  "handleWebViewCrash (crash_type Crashed) (JStr ''https://tinyspeck.slack.com/'') =
     [Dialog_showMessageBox ''Renderer'']
   \<and> SendToBrowser ''window:reload'' []
       \<notin> set (handleWebViewCrash (crash_type Crashed) (JStr ''https://tinyspeck.slack.com/''))"
  by (simp add: handleWebViewCrash_def startsWith_def)

end
